theory Spec2Isabelle
  imports Complex_Main
begin

section \<open>Strings\<close>

text \<open>
  JavaScript strings are modelled as \<^typ>\<open>string\<close>, one \<^typ>\<open>char\<close> per code unit, for
  the code units below 256. The patterns of the repository (\<^verbatim>\<open>[A-Z]\<close>, \<^verbatim>\<open>[a-z]\<close>, \<^verbatim>\<open>\w\<close>) name
  the ASCII letters; \<^verbatim>\<open>toLowerCase\<close> and \<^verbatim>\<open>toUpperCase\<close> also convert the accented letters
  from \<^verbatim>\<open>0xC0\<close> to \<^verbatim>\<open>0xFE\<close>, and \<^verbatim>\<open>toUpperCase\<close> writes the sharp s as two letters.
\<close>

definition upperChars :: string where
  "upperChars = ''ABCDEFGHIJKLMNOPQRSTUVWXYZ''"

definition lowerChars :: string where
  "lowerChars = ''abcdefghijklmnopqrstuvwxyz''"

definition digitChars :: string where
  "digitChars = ''0123456789''"

text \<open>The capital letters from \<^verbatim>\<open>0xC0\<close> to \<^verbatim>\<open>0xDE\<close> without the multiplication sign, and
  the small letters from \<^verbatim>\<open>0xE0\<close> to \<^verbatim>\<open>0xFE\<close> without the division sign, in the same
  order.\<close>

definition accentedUpperChars :: string where
  "accentedUpperChars = [CHR 0xC0, CHR 0xC1, CHR 0xC2, CHR 0xC3, CHR 0xC4, CHR 0xC5, CHR 0xC6, CHR 0xC7,
      CHR 0xC8, CHR 0xC9, CHR 0xCA, CHR 0xCB, CHR 0xCC, CHR 0xCD, CHR 0xCE, CHR 0xCF,
      CHR 0xD0, CHR 0xD1, CHR 0xD2, CHR 0xD3, CHR 0xD4, CHR 0xD5, CHR 0xD6, CHR 0xD8,
      CHR 0xD9, CHR 0xDA, CHR 0xDB, CHR 0xDC, CHR 0xDD, CHR 0xDE]"

definition accentedLowerChars :: string where
  "accentedLowerChars = [CHR 0xE0, CHR 0xE1, CHR 0xE2, CHR 0xE3, CHR 0xE4, CHR 0xE5, CHR 0xE6, CHR 0xE7,
      CHR 0xE8, CHR 0xE9, CHR 0xEA, CHR 0xEB, CHR 0xEC, CHR 0xED, CHR 0xEE, CHR 0xEF,
      CHR 0xF0, CHR 0xF1, CHR 0xF2, CHR 0xF3, CHR 0xF4, CHR 0xF5, CHR 0xF6, CHR 0xF8,
      CHR 0xF9, CHR 0xFA, CHR 0xFB, CHR 0xFC, CHR 0xFD, CHR 0xFE]"

definition isUpper :: "char \<Rightarrow> bool" where
  "isUpper c = (c \<in> set upperChars)"

definition toLowerChar :: "char \<Rightarrow> char" where
  "toLowerChar c =
     (case map_of (zip (upperChars @ accentedUpperChars) (lowerChars @ accentedLowerChars)) c of
        Some l \<Rightarrow> l
      | None \<Rightarrow> c)"

definition toUpperChar :: "char \<Rightarrow> char" where
  "toUpperChar c =
     (case map_of (zip (lowerChars @ accentedLowerChars) (upperChars @ accentedUpperChars)) c of
        Some u \<Rightarrow> u
      | None \<Rightarrow> c)"

definition toLowerCase :: "string \<Rightarrow> string" where
  "toLowerCase s = map toLowerChar s"

definition toUpperCase :: "string \<Rightarrow> string" where
  "toUpperCase s = concat (map (\<lambda>c. if c = CHR 0xDF then ''SS'' else [toUpperChar c]) s)"

text \<open>
  Two letters below 256 have their capital above 255, the micro sign \<^verbatim>\<open>0xB5\<close> and the
  y with diaeresis \<^verbatim>\<open>0xFF\<close>; the model cannot write these capitals and leaves the two
  letters as they are. A name without them is converted as JavaScript converts it.
\<close>

definition capitalsBelow256 :: "string \<Rightarrow> bool" where
  "capitalsBelow256 s = (CHR 0xB5 \<notin> set s \<and> CHR 0xFF \<notin> set s)"

text \<open>\<^verbatim>\<open>parts.join(sep)\<close>\<close>

fun join :: "string \<Rightarrow> string list \<Rightarrow> string" where
  "join sep [] = []"
| "join sep [x] = x"
| "join sep (x # y # ys) = x @ sep @ join sep (y # ys)"

text \<open>\<^verbatim>\<open>s.endsWith(t)\<close> and \<^verbatim>\<open>s.startsWith(t)\<close>\<close>

definition startsWith :: "string \<Rightarrow> string \<Rightarrow> bool" where
  "startsWith s t = (take (length t) s = t)"

definition endsWith :: "string \<Rightarrow> string \<Rightarrow> bool" where
  "endsWith s t = (length t \<le> length s \<and> drop (length s - length t) s = t)"

text \<open>\<^verbatim>\<open>s.split(/[-_]/)\<close> and its like: every separator character ends a piece, so
  the empty string gives one empty piece.\<close>

fun splitOn :: "(char \<Rightarrow> bool) \<Rightarrow> string \<Rightarrow> string list" where
  "splitOn p [] = [[]]"
| "splitOn p (c # cs) =
     (if p c then [] # splitOn p cs
      else (case splitOn p cs of
              [] \<Rightarrow> [[c]]
            | w # ws \<Rightarrow> (c # w) # ws))"

text \<open>The position of the first occurrence of a literal pattern: the text before it
  and the text after it.\<close>

fun findFirst :: "string \<Rightarrow> string \<Rightarrow> (string \<times> string) option" where
  "findFirst pat [] = (if pat = [] then Some ([], []) else None)"
| "findFirst pat (c # cs) =
     (if startsWith (c # cs) pat then Some ([], drop (length pat) (c # cs))
      else (case findFirst pat cs of
              None \<Rightarrow> None
            | Some (preceding, following) \<Rightarrow> Some (c # preceding, following)))"

text \<open>The replacement text of \<^verbatim>\<open>String.prototype.replace\<close> with a string pattern:
  \<^verbatim>\<open>$$\<close>, \<^verbatim>\<open>$&\<close>, the text before and the text after the match are expanded.\<close>

fun getSubstitution :: "string \<Rightarrow> string \<Rightarrow> string \<Rightarrow> string \<Rightarrow> string" where
  "getSubstitution matched preceding following [] = []"
| "getSubstitution matched preceding following [c] = [c]"
| "getSubstitution matched preceding following (c # d # cs) =
     (if c = CHR ''$'' then
        (if d = CHR ''$'' then CHR ''$'' # getSubstitution matched preceding following cs
         else if d = CHR ''&'' then matched @ getSubstitution matched preceding following cs
         else if d = CHR 0x60 then preceding @ getSubstitution matched preceding following cs
         else if d = CHR 0x27 then following @ getSubstitution matched preceding following cs
         else c # getSubstitution matched preceding following (d # cs))
      else c # getSubstitution matched preceding following (d # cs))"

definition replaceFirst :: "string \<Rightarrow> string \<Rightarrow> string \<Rightarrow> string" where
  "replaceFirst s pat repl =
     (case findFirst pat s of
        None \<Rightarrow> s
      | Some (preceding, following) \<Rightarrow>
          preceding @ getSubstitution pat preceding following repl @ following)"

text \<open>\<^verbatim>\<open>s.includes(pat)\<close>\<close>

definition includesText :: "string \<Rightarrow> string \<Rightarrow> bool" where
  "includesText s pat = (findFirst pat s \<noteq> None)"

section \<open>Name resolver (src/utils/naming.ts)\<close>

text \<open>
  \<^verbatim>\<open>str.replace(/[A-Z]/g, letter => `_${letter.toLowerCase()}`).replace(/^_/, '')\<close>
\<close>

definition toSnakeCase :: "string \<Rightarrow> string" where
  "toSnakeCase str =
     (let s = concat (map (\<lambda>c. if isUpper c then [CHR ''_'', toLowerChar c] else [c]) str)
      in (case s of [] \<Rightarrow> [] | c # cs \<Rightarrow> if c = CHR ''_'' then cs else s))"

definition capitalizeWord :: "string \<Rightarrow> string" where
  "capitalizeWord word = toUpperCase (take 1 word) @ toLowerCase (drop 1 word)"

definition toPascalCase :: "string \<Rightarrow> string" where
  "toPascalCase str =
     concat (map capitalizeWord (splitOn (\<lambda>c. c = CHR ''-'' \<or> c = CHR ''_'') str))"

definition toCamelCase :: "string \<Rightarrow> string" where
  "toCamelCase str =
     (let pascal = toPascalCase str in toLowerCase (take 1 pascal) @ drop 1 pascal)"

section \<open>Definitions and output tables\<close>

datatype error = Error string

text \<open>A property that JavaScript reads for its truth value: absent counts as false.\<close>

fun truthy :: "bool option \<Rightarrow> bool" where
  "truthy (Some b) = b"
| "truthy None = False"

text \<open>Numbers of the definitions are carried as integers; they are only copied or
  printed, never computed with.\<close>

datatype JsValue = JsString string | JsNumber int | JsBoolean bool

record FieldValidation =
  v_minLength :: "int option"
  v_maxLength :: "int option"
  v_pattern :: "string option"
  v_email :: "bool option"
  v_url :: "bool option"
  v_uuid :: "bool option"
  v_cuid :: "bool option"
  v_min :: "int option"
  v_max :: "int option"
  v_int :: "bool option"
  v_positive :: "bool option"
  v_negative :: "bool option"
  v_minItems :: "int option"
  v_maxItems :: "int option"
  v_custom :: "string option"

record ComponentContext =
  abTesting_enabled :: "bool option"

text \<open>
  The type-specific configuration, a union discriminated by its \<^verbatim>\<open>type\<close> tag.
  Each variant carries the properties that generation reads.
\<close>

datatype FieldConfig =
    TextConfig
  | RichConfig
  | NumberConfig (number_format: "string option") (number_default: "int option")
  | BooleanConfig (boolean_default: "bool option")
  | SelectConfig (select_multiple: "bool option")
  | JsonConfig
  | MediaConfig (media_multiple: bool)
  | RelationConfig (relationType: string) (targetModel: string) (cascade: string)
  | ComponentConfig (component_slug: string) (repeatable: bool)
      (component_context: "ComponentContext option")
  | DateConfig

fun configType :: "FieldConfig \<Rightarrow> string" where
  "configType TextConfig = ''text''"
| "configType RichConfig = ''rich''"
| "configType (NumberConfig f d) = ''number''"
| "configType (BooleanConfig d) = ''boolean''"
| "configType (SelectConfig m) = ''select''"
| "configType JsonConfig = ''json''"
| "configType (MediaConfig m) = ''media''"
| "configType (RelationConfig r t c) = ''relation''"
| "configType (ComponentConfig s r c) = ''component''"
| "configType DateConfig = ''date''"

text \<open>
  A field definition. The \<^verbatim>\<open>type\<close> is kept as a string, as it is at run time, so that
  the translator's default case is a case of the model. \<open>fd_derived\<close> is the passthrough
  property \<^verbatim>\<open>derived\<close> that the orchestrator looks at.
\<close>

record FieldDefinition =
  fd_key :: string
  fd_label :: string
  fd_type :: string
  fd_config :: "FieldConfig option"
  fd_required :: bool
  fd_translatable :: "bool option"
  fd_validation :: "FieldValidation option"
  fd_derived :: bool

record ModelSettings =
  enableI18n :: "bool option"
  sortField :: "string option"

record ModelConfig =
  mc_slug :: string
  mc_name :: string
  mc_fields :: "FieldDefinition list"
  mc_settings :: "ModelSettings option"

record ComponentEntity =
  ce_slug :: string
  ce_name :: string
  ce_fields :: "FieldDefinition list"

text \<open>Output columns and tables (src/utils/prisma-ast.ts).\<close>

record PrismaRelation =
  rel_name :: "string option"
  rel_fields :: "string list option"
  rel_references :: "string list option"
  rel_onDelete :: "string option"
  rel_onUpdate :: "string option"

record PrismaField =
  pf_name :: string
  pf_type :: string
  pf_optional :: "bool option"
  pf_list :: "bool option"
  pf_default :: "JsValue option"
  pf_attributes :: "string list option"
  pf_relation :: "PrismaRelation option"
  pf_map :: "string option"
  pf_validation :: "FieldValidation option"

record PrismaModel =
  pm_name :: string
  pm_fields :: "PrismaField list"
  pm_indexes :: "string list list option"
  pm_unique :: "string list list option"
  pm_map :: "string option"

text \<open>An object literal of the source names only some properties; the others are absent.\<close>

definition column :: "string \<Rightarrow> string \<Rightarrow> PrismaField" where
  "column n t = \<lparr> pf_name = n, pf_type = t, pf_optional = None, pf_list = None,
     pf_default = None, pf_attributes = None, pf_relation = None, pf_map = None,
     pf_validation = None \<rparr>"

definition relationTo :: "string list \<Rightarrow> string list \<Rightarrow> string \<Rightarrow> PrismaRelation" where
  "relationTo fs refs del = \<lparr> rel_name = None, rel_fields = Some fs,
     rel_references = Some refs, rel_onDelete = Some del, rel_onUpdate = None \<rparr>"

record SchemaBuilderConfig =
  convention :: string
  prefix :: "string option"
  i18nEnabled :: bool
  i18nTableNaming :: string
  externalModelNames :: "string list option"

section \<open>Field translator (src/mappers/field-mapper.ts)\<close>

definition toModelName :: "string \<Rightarrow> SchemaBuilderConfig \<Rightarrow> string" where
  "toModelName sl config =
     (if convention config = ''PascalCase'' then toPascalCase sl
      else if convention config = ''camelCase'' then toCamelCase sl
      else if convention config = ''snake_case''
        then map (\<lambda>c. if c = CHR ''-'' then CHR ''_'' else c) sl
      else toPascalCase sl)"

definition mapTextField :: "FieldDefinition \<Rightarrow> PrismaField" where
  "mapTextField field = (column (fd_key field) ''String'')
     \<lparr> pf_optional := Some (\<not> fd_required field), pf_validation := fd_validation field \<rparr>"

definition mapRichTextField :: "FieldDefinition \<Rightarrow> PrismaField" where
  "mapRichTextField field = (column (fd_key field) ''String'')
     \<lparr> pf_optional := Some (\<not> fd_required field), pf_validation := fd_validation field \<rparr>"

definition mapNumberField :: "FieldDefinition \<Rightarrow> PrismaField" where
  "mapNumberField field =
     (let ty = (case fd_config field of
                  Some (NumberConfig fmt d) \<Rightarrow> if fmt = Some ''integer'' then ''Int'' else ''Float''
                | _ \<Rightarrow> ''Float'');
          dflt = (case fd_config field of
                  Some (NumberConfig fmt d) \<Rightarrow> map_option JsNumber d
                | _ \<Rightarrow> None)
      in (column (fd_key field) ty)
           \<lparr> pf_optional := Some (\<not> fd_required field), pf_default := dflt,
             pf_validation := fd_validation field \<rparr>)"

definition mapBooleanField :: "FieldDefinition \<Rightarrow> PrismaField" where
  "mapBooleanField field =
     (let dflt = (case fd_config field of
                  Some (BooleanConfig d) \<Rightarrow> map_option JsBoolean d
                | _ \<Rightarrow> None)
      in (column (fd_key field) ''Boolean'')
           \<lparr> pf_optional := Some (\<not> fd_required field), pf_default := dflt,
             pf_validation := fd_validation field \<rparr>)"

definition mapDateField :: "FieldDefinition \<Rightarrow> PrismaField" where
  "mapDateField field = (column (fd_key field) ''DateTime'')
     \<lparr> pf_optional := Some (\<not> fd_required field), pf_validation := fd_validation field \<rparr>"

text \<open>Both branches of the source (multiple or not) build the same column.\<close>

definition mapSelectField :: "FieldDefinition \<Rightarrow> PrismaField" where
  "mapSelectField field =
     (case fd_config field of
        Some (SelectConfig m) \<Rightarrow>
          if truthy m
          then (column (fd_key field) ''String'')
                 \<lparr> pf_optional := Some (\<not> fd_required field),
                   pf_validation := fd_validation field \<rparr>
          else (column (fd_key field) ''String'')
                 \<lparr> pf_optional := Some (\<not> fd_required field),
                   pf_validation := fd_validation field \<rparr>
      | _ \<Rightarrow> (column (fd_key field) ''String'')
                 \<lparr> pf_optional := Some (\<not> fd_required field),
                   pf_validation := fd_validation field \<rparr>)"

definition mapJsonField :: "FieldDefinition \<Rightarrow> PrismaField" where
  "mapJsonField field = (column (fd_key field) ''String'')
     \<lparr> pf_optional := Some (\<not> fd_required field), pf_validation := fd_validation field \<rparr>"

definition mapMediaField :: "FieldDefinition \<Rightarrow> SchemaBuilderConfig \<Rightarrow> PrismaField list" where
  "mapMediaField field config =
     (let externalModels = (case externalModelNames config of Some ns \<Rightarrow> ns | None \<Rightarrow> []);
          hasMediaModel = (''Media'' \<in> set externalModels);
          multiple = (case fd_config field of Some (MediaConfig m) \<Rightarrow> m | _ \<Rightarrow> False)
      in if multiple \<and> hasMediaModel
         then [(column (fd_key field) ''Media'')
                 \<lparr> pf_optional := Some True, pf_list := Some True \<rparr>]
         else if hasMediaModel
         then [(column (fd_key field @ ''_id'') ''String'')
                 \<lparr> pf_optional := Some (\<not> fd_required field) \<rparr>]
         else [(column (fd_key field @ ''_id'') ''String'')
                 \<lparr> pf_optional := Some (\<not> fd_required field) \<rparr>])"

definition mapRelationField ::
  "FieldDefinition \<Rightarrow> SchemaBuilderConfig \<Rightarrow> error + PrismaField list" where
  "mapRelationField field config =
     (case fd_config field of
        Some (RelationConfig rt target casc) \<Rightarrow>
          (let targetModelName = toModelName target config in
           if rt = ''oneToOne'' then
             Inr [(column (fd_key field @ ''_id'') ''String'')
                    \<lparr> pf_optional := Some (\<not> fd_required field),
                      pf_attributes := Some [''@unique''] \<rparr>]
           else if rt = ''manyToOne'' then
             Inr [(column (fd_key field @ ''_id'') ''String'')
                    \<lparr> pf_optional := Some (\<not> fd_required field) \<rparr>]
           else if rt = ''oneToMany'' then
             Inr [(column (fd_key field) targetModelName)
                    \<lparr> pf_optional := Some True, pf_list := Some True \<rparr>]
           else if rt = ''manyToMany'' then
             Inr [(column (fd_key field) targetModelName)
                    \<lparr> pf_optional := Some True, pf_list := Some True \<rparr>]
           else Inl (Error (''Unknown relation type: '' @ rt)))
      | _ \<Rightarrow> Inl (Error ''Invalid relation field''))"

definition mapComponentField ::
  "FieldDefinition \<Rightarrow> SchemaBuilderConfig \<Rightarrow> error + PrismaField list" where
  "mapComponentField field config =
     (case fd_config field of
        Some (ComponentConfig sl rep ctx) \<Rightarrow>
          (let componentModel = toModelName sl config in
           if rep
           then Inr [(column (fd_key field) componentModel)
                       \<lparr> pf_optional := Some True, pf_list := Some True \<rparr>]
           else Inr [(column (fd_key field) componentModel)
                       \<lparr> pf_optional := Some (\<not> fd_required field) \<rparr>])
      | _ \<Rightarrow> Inl (Error ''Invalid component field''))"

definition mapFieldToPrisma ::
  "FieldDefinition \<Rightarrow> SchemaBuilderConfig \<Rightarrow> error + PrismaField list" where
  "mapFieldToPrisma field config =
     (if fd_type field = ''text'' then Inr [mapTextField field]
      else if fd_type field = ''rich'' then Inr [mapRichTextField field]
      else if fd_type field = ''number'' then Inr [mapNumberField field]
      else if fd_type field = ''boolean'' then Inr [mapBooleanField field]
      else if fd_type field = ''date'' then Inr [mapDateField field]
      else if fd_type field = ''select'' then Inr [mapSelectField field]
      else if fd_type field = ''json'' then Inr [mapJsonField field]
      else if fd_type field = ''media'' then Inr (mapMediaField field config)
      else if fd_type field = ''relation'' then mapRelationField field config
      else if fd_type field = ''component'' then mapComponentField field config
      else Inl (Error (''Unknown field type: '' @ fd_type field)))"

text \<open>\<^verbatim>\<open>fields.flatMap((f) => mapFieldToPrisma(f, config))\<close>: the first field that the
  translator refuses ends the whole call with its error.\<close>

fun mapFields :: "FieldDefinition list \<Rightarrow> SchemaBuilderConfig \<Rightarrow> error + PrismaField list" where
  "mapFields [] config = Inr []"
| "mapFields (f # fs) config =
     (case mapFieldToPrisma f config of
        Inl e \<Rightarrow> Inl e
      | Inr cols \<Rightarrow>
          (case mapFields fs config of
             Inl e \<Rightarrow> Inl e
           | Inr rest \<Rightarrow> Inr (cols @ rest)))"

section \<open>Component table builder (src/mappers/component-mapper.ts)\<close>

definition buildComponentTableName :: "string \<Rightarrow> string \<Rightarrow> SchemaBuilderConfig \<Rightarrow> string" where
  "buildComponentTableName parentModel fieldKey config =
     (let fieldName = (if endsWith fieldKey ''s'' then butlast fieldKey else fieldKey)
      in if convention config = ''snake_case''
         then toSnakeCase parentModel @ ''_'' @ fieldName
         else parentModel @ toPascalCase fieldName)"

fun separateComponentFields ::
  "FieldDefinition list \<Rightarrow> FieldDefinition list \<times> FieldDefinition list" where
  "separateComponentFields [] = ([], [])"
| "separateComponentFields (field # fieldList) =
     (case separateComponentFields fieldList of (translatable, nonTranslatable) \<Rightarrow>
        if fd_type field = ''component'' \<or> fd_type field = ''relation''
          then (translatable, field # nonTranslatable)
        else if fd_translatable field \<noteq> Some False
          then (field # translatable, nonTranslatable)
        else (translatable, field # nonTranslatable))"

definition idColumn :: PrismaField where
  "idColumn = (column ''id'' ''String'') \<lparr> pf_attributes := Some [''@id'', ''@default(cuid())''] \<rparr>"

definition createdAtColumn :: PrismaField where
  "createdAtColumn =
     (column ''created_at'' ''DateTime'') \<lparr> pf_attributes := Some [''@default(now())''] \<rparr>"

definition updatedAtColumn :: PrismaField where
  "updatedAtColumn =
     (column ''updated_at'' ''DateTime'') \<lparr> pf_attributes := Some [''@updatedAt''] \<rparr>"

definition orderColumn :: PrismaField where
  "orderColumn = (column ''order'' ''Int'') \<lparr> pf_optional := Some True \<rparr>"

definition abTestingOn :: "ComponentContext option \<Rightarrow> bool" where
  "abTestingOn context = (case context of None \<Rightarrow> False | Some c \<Rightarrow> truthy (abTesting_enabled c))"

definition buildComponentTable ::
  "string \<Rightarrow> string \<Rightarrow> ComponentEntity \<Rightarrow> bool \<Rightarrow> SchemaBuilderConfig \<Rightarrow>
     ComponentContext option \<Rightarrow> error + PrismaModel" where
  "buildComponentTable parentModel fieldKey component rep config context =
     (let tableName = buildComponentTableName parentModel fieldKey config;
          parentFk = toSnakeCase parentModel @ ''_id''
      in case separateComponentFields (ce_fields component) of (translatable, nonTranslatable) \<Rightarrow>
         (case mapFields (if i18nEnabled config then nonTranslatable
                          else nonTranslatable @ translatable) config of
            Inl e \<Rightarrow> Inl e
          | Inr componentColumns \<Rightarrow>
              (let fieldList =
                     [idColumn,
                      (column parentFk ''String'')
                        \<lparr> pf_attributes := Some (if rep then [] else [''@unique'']) \<rparr>]
                     @ (if rep then [orderColumn] else [])
                     @ (if abTestingOn context
                        then [(column ''variant_id'' ''String'') \<lparr> pf_optional := Some True \<rparr>,
                              (column ''enabled'' ''Boolean'')
                                \<lparr> pf_optional := Some True,
                                  pf_default := Some (JsBoolean True) \<rparr>]
                        else [])
                     @ componentColumns
                     @ [createdAtColumn, updatedAtColumn,
                        (column (toSnakeCase parentModel) parentModel)
                          \<lparr> pf_relation := Some (relationTo [parentFk] [''id''] ''Cascade'') \<rparr>];
                   columns' =
                     (if i18nEnabled config \<and> translatable \<noteq> []
                      then fieldList @ [(column ''translations'' (tableName @ ''Translation''))
                                       \<lparr> pf_list := Some True \<rparr>]
                      else fieldList)
               in Inr \<lparr> pm_name = tableName, pm_fields = columns',
                        pm_indexes = (if rep then Some [[parentFk]] else None),
                        pm_unique = None, pm_map = None \<rparr>)))"

definition buildComponentTranslationTable ::
  "string \<Rightarrow> string \<Rightarrow> ComponentEntity \<Rightarrow> SchemaBuilderConfig \<Rightarrow> error + PrismaModel option" where
  "buildComponentTranslationTable parentModel fieldKey component config =
     (case separateComponentFields (ce_fields component) of (translatable, nonTranslatable) \<Rightarrow>
        if translatable = [] then Inr None
        else
          (let baseTableName = buildComponentTableName parentModel fieldKey config;
               tableName = baseTableName @ ''Translation'';
               baseFk = toSnakeCase baseTableName @ ''_id''
           in case mapFields translatable config of
                Inl e \<Rightarrow> Inl e
              | Inr translatedColumns \<Rightarrow>
                  Inr (Some \<lparr> pm_name = tableName,
                    pm_fields =
                      [idColumn, column baseFk ''String'', column ''lang'' ''String'']
                      @ translatedColumns
                      @ [(column (toSnakeCase baseTableName) baseTableName)
                           \<lparr> pf_relation := Some (relationTo [baseFk] [''id''] ''Cascade'') \<rparr>],
                    pm_indexes = None,
                    pm_unique = Some [[baseFk, ''lang'']],
                    pm_map = Some (toSnakeCase tableName) \<rparr>)))"

section \<open>Relation and junction builder (src/mappers/relation-mapper.ts)\<close>

definition needsJunctionTable :: "FieldDefinition \<Rightarrow> bool" where
  "needsJunctionTable field =
     (if fd_type field \<noteq> ''relation'' then False
      else (case fd_config field of
              Some (RelationConfig rt target casc) \<Rightarrow> rt = ''manyToMany''
            | _ \<Rightarrow> False))"

definition buildJunctionTableName :: "string \<Rightarrow> string \<Rightarrow> SchemaBuilderConfig \<Rightarrow> string" where
  "buildJunctionTableName fromModel toModel config =
     (if convention config = ''snake_case''
      then toSnakeCase fromModel @ ''_'' @ toSnakeCase toModel
      else fromModel @ toModel)"

definition buildJunctionTable ::
  "string \<Rightarrow> FieldDefinition \<Rightarrow> SchemaBuilderConfig \<Rightarrow> error + PrismaModel" where
  "buildJunctionTable fromModel field config =
     (case fd_config field of
        Some (RelationConfig rt target casc) \<Rightarrow>
          (let toModel = toPascalCase target;
               tableName = buildJunctionTableName fromModel toModel config;
               fromFk = toSnakeCase fromModel @ ''_id'';
               toFk = toSnakeCase toModel @ ''_id''
           in Inr \<lparr> pm_name = tableName,
                pm_fields =
                  [idColumn,
                   column fromFk ''String'',
                   column toFk ''String'',
                   orderColumn,
                   createdAtColumn,
                   (column (toSnakeCase fromModel) fromModel)
                     \<lparr> pf_relation := Some (relationTo [fromFk] [''id'']
                          (if casc = ''cascade'' then ''Cascade'' else ''Restrict'')) \<rparr>,
                   (column (toSnakeCase toModel) toModel)
                     \<lparr> pf_relation := Some (relationTo [toFk] [''id''] ''Cascade'') \<rparr>],
                pm_indexes = Some [[fromFk], [toFk]],
                pm_unique = Some [[fromFk, toFk]],
                pm_map = None \<rparr>)
      | _ \<Rightarrow> Inl (Error ''Field must be a relation''))"

section \<open>Model compiler (src/core/schema-builder.ts)\<close>

fun separateFields ::
  "FieldDefinition list \<Rightarrow> FieldDefinition list \<times> FieldDefinition list \<times> FieldDefinition list" where
  "separateFields [] = ([], [], [])"
| "separateFields (field # fieldList) =
     (case separateFields fieldList of (translatable, nonTranslatable, components) \<Rightarrow>
        if fd_type field = ''component''
          then (translatable, nonTranslatable, field # components)
        else if fd_type field = ''relation''
          then (translatable, field # nonTranslatable, components)
        else if fd_translatable field \<noteq> Some False
          then (field # translatable, nonTranslatable, components)
        else (translatable, field # nonTranslatable, components))"

definition buildModelName :: "string \<Rightarrow> SchemaBuilderConfig \<Rightarrow> string" where
  "buildModelName sl config =
     (let name = toPascalCase sl
      in case prefix config of
           None \<Rightarrow> name
         | Some p \<Rightarrow> if p = [] then name else p @ name)"

definition buildTranslationRelation :: "string \<Rightarrow> PrismaField" where
  "buildTranslationRelation modelName =
     (column ''translations'' (modelName @ ''Translation''))
       \<lparr> pf_optional := Some True, pf_list := Some True \<rparr>"

definition buildTranslationModel ::
  "string \<Rightarrow> FieldDefinition list \<Rightarrow> SchemaBuilderConfig \<Rightarrow> error + PrismaModel" where
  "buildTranslationModel baseModelName translatableFields config =
     (let tableName = replaceFirst (i18nTableNaming config) ''${identifier}''
                        (toSnakeCase baseModelName)
      in case mapFields translatableFields config of
           Inl e \<Rightarrow> Inl e
         | Inr translatedColumns \<Rightarrow>
             Inr \<lparr> pm_name = baseModelName @ ''Translation'',
               pm_fields =
                 [idColumn,
                  column (toSnakeCase baseModelName @ ''_id'') ''String'',
                  column ''lang'' ''String'']
                 @ translatedColumns
                 @ [(column (toSnakeCase baseModelName) baseModelName)
                      \<lparr> pf_relation := Some (relationTo [toSnakeCase baseModelName @ ''_id'']
                           [''id''] ''Cascade'') \<rparr>],
               pm_indexes = None,
               pm_unique = Some [[toSnakeCase baseModelName @ ''_id'', ''lang'']],
               pm_map = Some tableName \<rparr>)"

definition buildIndexes :: "FieldDefinition list \<Rightarrow> ModelSettings option \<Rightarrow> string list list" where
  "buildIndexes fieldList settings =
     (let sortIndex = (case settings of
                         None \<Rightarrow> []
                       | Some st \<Rightarrow> (case sortField st of
                                      None \<Rightarrow> []
                                    | Some sf \<Rightarrow> if sf = [] then [] else [[sf]]));
          hasStatus = list_ex (\<lambda>f. fd_key f = ''status'') fieldList;
          hasPublishedAt = list_ex (\<lambda>f. fd_key f = ''published_at'') fieldList
      in sortIndex @ (if hasStatus \<and> hasPublishedAt then [[''status'', ''published_at'']] else []))"

text \<open>The loop over the component fields of \<^verbatim>\<open>buildModel\<close>: one reference column for each
  field whose configuration is a component configuration.\<close>

fun componentReferences ::
  "string \<Rightarrow> SchemaBuilderConfig \<Rightarrow> FieldDefinition list \<Rightarrow> PrismaField list" where
  "componentReferences modelName config [] = []"
| "componentReferences modelName config (field # fieldList) =
     (case fd_config field of
        Some (ComponentConfig sl rep ctx) \<Rightarrow>
          (column (fd_key field) (buildComponentTableName modelName (fd_key field) config))
            \<lparr> pf_optional := Some True, pf_list := Some rep \<rparr>
          # componentReferences modelName config fieldList
      | _ \<Rightarrow> componentReferences modelName config fieldList)"

definition buildModel :: "ModelConfig \<Rightarrow> SchemaBuilderConfig \<Rightarrow> error + PrismaModel list" where
  "buildModel model config =
     (let modelName = buildModelName (mc_slug model) config
      in case separateFields (mc_fields model) of (translatable, nonTranslatable, components) \<Rightarrow>
         (let fieldsToInclude = (if i18nEnabled config then nonTranslatable
                                 else nonTranslatable @ translatable)
          in case mapFields fieldsToInclude config of
               Inl e \<Rightarrow> Inl e
             | Inr mapped \<Rightarrow>
                 (let mainFields = [idColumn] @ mapped @ [createdAtColumn, updatedAtColumn]
                        @ componentReferences modelName config components
                        @ (if i18nEnabled config \<and> translatable \<noteq> []
                           then [buildTranslationRelation modelName] else []);
                      mainModel = \<lparr> pm_name = modelName, pm_fields = mainFields,
                        pm_indexes = Some (buildIndexes (mc_fields model) (mc_settings model)),
                        pm_unique = None, pm_map = None \<rparr>
                  in if i18nEnabled config \<and> translatable \<noteq> []
                     then (case buildTranslationModel modelName translatable config of
                             Inl e \<Rightarrow> Inl e
                           | Inr translationModel \<Rightarrow> Inr [mainModel, translationModel])
                     else Inr [mainModel])))"

section \<open>Schema serializer (src/core/schema-writer.ts, src/utils/zod-comments.ts)\<close>

record PrismaDatasource =
  ds_provider :: string
  ds_url :: string
  ds_directUrl :: "string option"

text \<open>The values of a generator's free-form configuration.\<close>

datatype ConfigValue =
    CfgString string
  | CfgBoolean bool
  | CfgNumber int
  | CfgNull
  | CfgArray "ConfigValue list"

text \<open>\<open>gen_config\<close> lists the entries in the order of \<^verbatim>\<open>Object.entries\<close>.\<close>

record PrismaGenerator =
  gen_name :: string
  gen_provider :: string
  gen_output :: "string option"
  gen_config :: "(string \<times> ConfigValue) list option"

record PrismaSchema =
  datasource :: PrismaDatasource
  generators :: "PrismaGenerator list"
  models :: "PrismaModel list"

text \<open>The characters that \<^verbatim>\<open>\s\<close>, \<^verbatim>\<open>trim\<close> and \<^verbatim>\<open>trimEnd\<close> take for white space, among
  the code units below 256.\<close>

definition isSpace :: "char \<Rightarrow> bool" where
  "isSpace c = (c \<in> set [CHR 0x09, CHR 0x0A, CHR 0x0B, CHR 0x0C, CHR 0x0D, CHR 0x20, CHR 0xA0])"

definition trimStart :: "string \<Rightarrow> string" where
  "trimStart s = dropWhile isSpace s"

definition trimEnd :: "string \<Rightarrow> string" where
  "trimEnd s = rev (dropWhile isSpace (rev s))"

definition trim :: "string \<Rightarrow> string" where
  "trim s = trimEnd (trimStart s)"

definition padEnd :: "string \<Rightarrow> nat \<Rightarrow> string" where
  "padEnd s w = s @ replicate (w - length s) CHR '' ''"

definition digitOf :: "nat \<Rightarrow> char" where
  "digitOf d = digitChars ! d"

fun showNat :: "nat \<Rightarrow> string" where
  "showNat n = (if n < 10 then [digitOf n] else showNat (n div 10) @ [digitOf (n mod 10)])"

definition showInt :: "int \<Rightarrow> string" where
  "showInt i = (if i < 0 then CHR ''-'' # showNat (nat (- i)) else showNat (nat i))"

definition quoted :: "string \<Rightarrow> string" where
  "quoted s = [CHR 0x22] @ s @ [CHR 0x22]"

definition nonEmpty :: "string option \<Rightarrow> bool" where
  "nonEmpty s = (case s of None \<Rightarrow> False | Some t \<Rightarrow> t \<noteq> [])"

definition buildZodComment :: "FieldValidation option \<Rightarrow> string option" where
  "buildZodComment validation =
     (case validation of
        None \<Rightarrow> None
      | Some v \<Rightarrow>
          (let parts =
                 (if truthy (v_email v) then [''email()''] else [])
               @ (if truthy (v_url v) then [''url()''] else [])
               @ (if truthy (v_uuid v) then [''uuid()''] else [])
               @ (if truthy (v_cuid v) then [''cuid()''] else [])
               @ (case v_minLength v of None \<Rightarrow> [] | Some n \<Rightarrow> [''min('' @ showInt n @ '')''])
               @ (case v_maxLength v of None \<Rightarrow> [] | Some n \<Rightarrow> [''max('' @ showInt n @ '')''])
               @ (if nonEmpty (v_pattern v) then [''regex(/'' @ the (v_pattern v) @ ''/)''] else [])
               @ (case v_min v of None \<Rightarrow> [] | Some n \<Rightarrow> [''min('' @ showInt n @ '')''])
               @ (case v_max v of None \<Rightarrow> [] | Some n \<Rightarrow> [''max('' @ showInt n @ '')''])
               @ (if truthy (v_int v) then [''int()''] else [])
               @ (if truthy (v_positive v) then [''positive()''] else [])
               @ (if truthy (v_negative v) then [''negative()''] else [])
               @ (case v_minItems v of None \<Rightarrow> [] | Some n \<Rightarrow> [''length('' @ showInt n @ '')''])
               @ (case v_maxItems v of None \<Rightarrow> [] | Some n \<Rightarrow> [''length('' @ showInt n @ '')''])
               @ (if nonEmpty (v_custom v) then [the (v_custom v)] else [])
           in if parts = [] then None else Some (''/// @zod.'' @ join ''.'' parts)))"

definition writeDatasource :: "PrismaDatasource \<Rightarrow> string" where
  "writeDatasource ds =
     join [CHR 0x0A]
       ([''datasource db {'',
         ''provider = '' @ quoted (ds_provider ds),
         ''url = '' @ (if startsWith (ds_url ds) ''env('' then ds_url ds else quoted (ds_url ds))]
        @ (case ds_directUrl ds of
             None \<Rightarrow> []
           | Some d \<Rightarrow> if d = [] then []
                       else [''directUrl = '' @ (if startsWith d ''env('' then d else quoted d)])
        @ [''}''])"

text \<open>\<^verbatim>\<open>String(value)\<close>: an array prints its elements joined by commas, a null element
  of an array as nothing.\<close>

fun jsString :: "ConfigValue \<Rightarrow> string" where
  "jsString (CfgString s) = s"
| "jsString (CfgBoolean b) = (if b then ''true'' else ''false'')"
| "jsString (CfgNumber n) = showInt n"
| "jsString CfgNull = ''null''"
| "jsString (CfgArray vs) =
     join '','' (map (\<lambda>v. if v = CfgNull then [] else jsString v) vs)"

fun formatConfigValue :: "ConfigValue \<Rightarrow> string" where
  "formatConfigValue (CfgString s) = quoted s"
| "formatConfigValue (CfgBoolean b) = (if b then ''true'' else ''false'')"
| "formatConfigValue (CfgArray vs) = ''['' @ join '', '' (map formatConfigValue vs) @ '']''"
| "formatConfigValue (CfgNumber n) = showInt n"
| "formatConfigValue CfgNull = ''null''"

definition isArray :: "ConfigValue \<Rightarrow> bool" where
  "isArray v = (case v of CfgArray vs \<Rightarrow> True | _ \<Rightarrow> False)"

definition writeConfigEntry :: "string \<times> ConfigValue \<Rightarrow> string" where
  "writeConfigEntry kv =
     (case kv of (key, val) \<Rightarrow>
        (case val of
           CfgArray vs \<Rightarrow>
             if key = ''previewFeatures''
             then key @ '' = ['' @ join '', '' (map (\<lambda>v. quoted (jsString v)) vs) @ '']''
             else key @ '' = '' @ formatConfigValue val
         | _ \<Rightarrow> key @ '' = '' @ formatConfigValue val))"

definition writeGenerator :: "PrismaGenerator \<Rightarrow> string" where
  "writeGenerator g =
     join [CHR 0x0A]
       ([''generator '' @ gen_name g @ '' {'',
         ''provider = '' @ quoted (gen_provider g)]
        @ (if nonEmpty (gen_output g) then [''output = '' @ quoted (the (gen_output g))] else [])
        @ (case gen_config g of None \<Rightarrow> [] | Some entries \<Rightarrow> map writeConfigEntry entries)
        @ [''}''])"

definition formatFieldType :: "PrismaField \<Rightarrow> string" where
  "formatFieldType field =
     (if truthy (pf_list field) then pf_type field @ ''[]''
      else if truthy (pf_optional field) then pf_type field @ ''?''
      else pf_type field)"

definition formatRelation :: "PrismaRelation \<Rightarrow> string" where
  "formatRelation relation =
     (let parts =
            (if nonEmpty (rel_name relation) then [quoted (the (rel_name relation))] else [])
          @ (case rel_fields relation of
               None \<Rightarrow> [] | Some fs \<Rightarrow> [''fields: ['' @ join '', '' fs @ '']''])
          @ (case rel_references relation of
               None \<Rightarrow> [] | Some rs \<Rightarrow> [''references: ['' @ join '', '' rs @ '']''])
          @ (if nonEmpty (rel_onDelete relation)
             then [''onDelete: '' @ the (rel_onDelete relation)] else [])
          @ (if nonEmpty (rel_onUpdate relation)
             then [''onUpdate: '' @ the (rel_onUpdate relation)] else [])
      in ''@relation('' @ join '', '' parts @ '')'')"

definition writeFieldAligned :: "PrismaField \<Rightarrow> nat \<Rightarrow> nat \<Rightarrow> string" where
  "writeFieldAligned field nameWidth typeWidth =
     (let name = padEnd (pf_name field) nameWidth;
          ty = padEnd (formatFieldType field) typeWidth;
          result = ''  '' @ name @ ''  '' @ ty;
          result1 = (case pf_attributes field of
                       None \<Rightarrow> result
                     | Some attrs \<Rightarrow> if attrs = [] then result else result @ join '' '' attrs);
          result2 = (case pf_relation field of
                       None \<Rightarrow> result1
                     | Some r \<Rightarrow> result1 @ '' '' @ formatRelation r);
          result3 = (if nonEmpty (pf_map field)
                     then result2 @ '' @map('' @ quoted (the (pf_map field)) @ '')''
                     else result2)
      in trimEnd result3)"

definition maxWidth :: "nat list \<Rightarrow> nat" where
  "maxWidth ws = fold max ws 0"

definition nonEmptyList :: "'a list option \<Rightarrow> bool" where
  "nonEmptyList xs = (case xs of None \<Rightarrow> False | Some ys \<Rightarrow> ys \<noteq> [])"

definition writeFieldLines :: "PrismaField \<Rightarrow> nat \<Rightarrow> nat \<Rightarrow> string list" where
  "writeFieldLines field nameWidth typeWidth =
     (case buildZodComment (pf_validation field) of
        None \<Rightarrow> []
      | Some zodComment \<Rightarrow> [''  '' @ zodComment])
     @ [writeFieldAligned field nameWidth typeWidth]"

definition writeModel :: "PrismaModel \<Rightarrow> string" where
  "writeModel model =
     (let maxNameWidth = maxWidth (map (\<lambda>f. length (pf_name f)) (pm_fields model)) + 2;
          maxTypeWidth = maxWidth (map (\<lambda>f. length (formatFieldType f)) (pm_fields model)) + 2;
          hasIndexes = nonEmptyList (pm_indexes model);
          hasUnique = nonEmptyList (pm_unique model)
      in join [CHR 0x0A]
           ([''model '' @ pm_name model @ '' {'']
            @ concat (map (\<lambda>f. writeFieldLines f maxNameWidth maxTypeWidth) (pm_fields model))
            @ (if hasIndexes
               then [] # map (\<lambda>index. ''  @@index(['' @ join '', '' index @ ''])'')
                            (the (pm_indexes model))
               else [])
            @ (if hasUnique
               then (if \<not> hasIndexes then [[]] else [])
                    @ map (\<lambda>u. ''  @@unique(['' @ join '', '' u @ ''])'') (the (pm_unique model))
               else [])
            @ (if nonEmpty (pm_map model)
               then (if \<not> hasIndexes \<and> \<not> hasUnique then [[]] else [])
                    @ [''  @@map('' @ quoted (the (pm_map model)) @ '')'']
               else [])
            @ [''}'']))"

definition writeSchemaSync :: "PrismaSchema \<Rightarrow> string" where
  "writeSchemaSync schema =
     join [CHR 0x0A, CHR 0x0A]
       ([writeDatasource (datasource schema)]
        @ map writeGenerator (generators schema)
        @ map writeModel (models schema))
     @ [CHR 0x0A]"

section \<open>Orchestrator (src/core/generator.ts)\<close>

text \<open>
  The configuration of a run with direct input (src/types/config.ts). The mapper hooks
  are functions of the caller and may throw.
\<close>

record I18nConfig =
  i18n_enabled :: bool
  i18n_tableNaming :: string
  i18n_defaultLang :: string

record NamingConfig =
  naming_convention :: string
  naming_prefix :: "string option"

record OutputConfig =
  out_clientPath :: "string option"
  out_previewFeatures :: "string list option"
  out_datasource :: "PrismaDatasource option"

record Config =
  cfg_models :: "ModelConfig list"
  cfg_components :: "ComponentEntity list option"
  cfg_mapper_model :: "(ModelConfig \<Rightarrow> error + ModelConfig) option"
  cfg_mapper_component :: "(ComponentEntity \<Rightarrow> error + ComponentEntity) option"
  cfg_i18n :: "I18nConfig option"
  cfg_naming :: "NamingConfig option"
  cfg_output :: "OutputConfig option"
  cfg_generators :: "PrismaGenerator list option"

text \<open>
  What \<^verbatim>\<open>loadExternalModels\<close> hands to the run: the tables extracted from the external
  files, after the include and exclude lists, and the warnings of the files that
  could not be read.
\<close>

record ExternalModels =
  ext_models :: "PrismaModel list"
  ext_warnings :: "string list"

text \<open>
  The accumulators of one run. Each emitted table is kept with the statement of
  \<^verbatim>\<open>generate\<close> that pushed it; the label takes no part in any decision and is dropped
  when the schema is assembled. The set of junction-table names is kept in insertion
  order.
\<close>

datatype origin = FromBuildModel | FromComponentTable | FromComponentTranslation | FromJunctionTable

record GenState =
  gs_prismaModels :: "(origin \<times> PrismaModel) list"
  gs_junctionTables :: "string list"
  gs_warnings :: "string list"

fun mapAll :: "('a \<Rightarrow> error + 'a) \<Rightarrow> 'a list \<Rightarrow> error + 'a list" where
  "mapAll f [] = Inr []"
| "mapAll f (x # xs) =
     (case f x of
        Inl e \<Rightarrow> Inl e
      | Inr y \<Rightarrow> (case mapAll f xs of Inl e \<Rightarrow> Inl e | Inr ys \<Rightarrow> Inr (y # ys)))"

definition readModelsFromSource :: "Config \<Rightarrow> ModelConfig list" where
  "readModelsFromSource config = cfg_models config"

definition readComponents :: "Config \<Rightarrow> error + (string \<rightharpoonup> ComponentEntity)" where
  "readComponents config =
     (case cfg_components config of
        None \<Rightarrow> Inr Map.empty
      | Some comps \<Rightarrow>
          (case (case cfg_mapper_component config of
                   None \<Rightarrow> Inr comps
                 | Some mapper \<Rightarrow> mapAll mapper comps) of
             Inl e \<Rightarrow> Inl e
           | Inr components \<Rightarrow>
               Inr (fold (\<lambda>comp m. m(ce_slug comp \<mapsto> comp)) components Map.empty)))"

definition schemaBuilderConfigOf :: "Config \<Rightarrow> string list \<Rightarrow> SchemaBuilderConfig" where
  "schemaBuilderConfigOf config externalNames =
     \<lparr> convention = (case cfg_naming config of
                       None \<Rightarrow> ''PascalCase''
                     | Some n \<Rightarrow> if naming_convention n = [] then ''PascalCase''
                                 else naming_convention n),
       prefix = (case cfg_naming config of None \<Rightarrow> None | Some n \<Rightarrow> naming_prefix n),
       i18nEnabled = (case cfg_i18n config of None \<Rightarrow> False | Some i \<Rightarrow> i18n_enabled i),
       i18nTableNaming = (case cfg_i18n config of
                            None \<Rightarrow> ''${identifier}_translation''
                          | Some i \<Rightarrow> if i18n_tableNaming i = [] then ''${identifier}_translation''
                                      else i18n_tableNaming i),
       externalModelNames = Some externalNames \<rparr>"

text \<open>Lines 138 to 149 of \<^verbatim>\<open>generate\<close>: the junction table of a many-to-many field is
  pushed unless a table of that name was pushed before in this run.\<close>

definition emitJunction ::
  "string \<Rightarrow> SchemaBuilderConfig \<Rightarrow> FieldDefinition \<Rightarrow> GenState \<Rightarrow> error + GenState" where
  "emitJunction ownerName sbc field st =
     (if needsJunctionTable field then
        (case buildJunctionTable ownerName field sbc of
           Inl e \<Rightarrow> Inl e
         | Inr junctionTable \<Rightarrow>
             if pm_name junctionTable \<in> set (gs_junctionTables st) then Inr st
             else Inr (st \<lparr> gs_prismaModels :=
                               gs_prismaModels st @ [(FromJunctionTable, junctionTable)],
                             gs_junctionTables :=
                               gs_junctionTables st @ [pm_name junctionTable] \<rparr>))
      else Inr st)"

text \<open>The body of the loop over the fields of one model (lines 98 to 150).\<close>

definition processField ::
  "string \<Rightarrow> string \<Rightarrow> (string \<rightharpoonup> ComponentEntity) \<Rightarrow> SchemaBuilderConfig \<Rightarrow>
     FieldDefinition \<Rightarrow> GenState \<Rightarrow> error + GenState" where
  "processField ownerName modelSlug components sbc field st =
     (case (if fd_type field = ''component''
            then (case fd_config field of
                    Some (ComponentConfig sl rep ctx) \<Rightarrow> Some (sl, rep, ctx)
                  | _ \<Rightarrow> None)
            else None) of
        None \<Rightarrow> emitJunction ownerName sbc field st
      | Some (sl, rep, ctx) \<Rightarrow>
          (case components sl of
             None \<Rightarrow>
               Inr (st \<lparr> gs_warnings := gs_warnings st @
                      [''Component '' @ quoted sl @ '' not found for field '' @ quoted (fd_key field)
                       @ '' in model '' @ quoted modelSlug] \<rparr>)
           | Some component \<Rightarrow>
               (case buildComponentTable ownerName (fd_key field) component rep sbc ctx of
                  Inl e \<Rightarrow> Inl e
                | Inr componentTable \<Rightarrow>
                    (let st1 = st \<lparr> gs_prismaModels :=
                                 gs_prismaModels st @ [(FromComponentTable, componentTable)] \<rparr>
                     in if i18nEnabled sbc
                        then (case buildComponentTranslationTable ownerName (fd_key field)
                                     component sbc of
                                Inl e \<Rightarrow> Inl e
                              | Inr None \<Rightarrow> emitJunction ownerName sbc field st1
                              | Inr (Some translationTable) \<Rightarrow>
                                  emitJunction ownerName sbc field
                                    (st1 \<lparr> gs_prismaModels := gs_prismaModels st1 @
                                       [(FromComponentTranslation, translationTable)] \<rparr>))
                        else emitJunction ownerName sbc field st1))))"

fun processFields ::
  "string \<Rightarrow> string \<Rightarrow> (string \<rightharpoonup> ComponentEntity) \<Rightarrow> SchemaBuilderConfig \<Rightarrow>
     FieldDefinition list \<Rightarrow> GenState \<Rightarrow> error + GenState" where
  "processFields ownerName modelSlug components sbc [] st = Inr st"
| "processFields ownerName modelSlug components sbc (field # rest) st =
     (case processField ownerName modelSlug components sbc field st of
        Inl e \<Rightarrow> Inl e
      | Inr st' \<Rightarrow> processFields ownerName modelSlug components sbc rest st')"

definition derivedWarnings :: "ModelConfig \<Rightarrow> string list" where
  "derivedWarnings model =
     map (\<lambda>field. ''Skipped derived field '' @ quoted (fd_key field) @ '' in model ''
                   @ quoted (mc_slug model))
         (filter fd_derived (mc_fields model))"

text \<open>The body of the loop over the models (lines 79 to 151). The name of the owner is
  that of the first table \<^verbatim>\<open>buildModel\<close> returned.\<close>

definition processModel ::
  "(string \<rightharpoonup> ComponentEntity) \<Rightarrow> SchemaBuilderConfig \<Rightarrow> ModelConfig \<Rightarrow> GenState \<Rightarrow>
     error + GenState" where
  "processModel components sbc model st =
     (let st0 = st \<lparr> gs_warnings := gs_warnings st @ derivedWarnings model \<rparr>;
          modelWithoutDerived =
            model \<lparr> mc_fields := filter (\<lambda>field. \<not> fd_derived field) (mc_fields model) \<rparr>
      in case buildModel modelWithoutDerived sbc of
           Inl e \<Rightarrow> Inl e
         | Inr generated \<Rightarrow>
             (case generated of
                [] \<Rightarrow> Inl (Error ''Cannot read properties of undefined'')
              | first # others \<Rightarrow>
                  processFields (pm_name first) (mc_slug model) components sbc (mc_fields model)
                    (st0 \<lparr> gs_prismaModels :=
                       gs_prismaModels st0 @ map (\<lambda>t. (FromBuildModel, t)) generated \<rparr>)))"

fun processModels ::
  "(string \<rightharpoonup> ComponentEntity) \<Rightarrow> SchemaBuilderConfig \<Rightarrow> ModelConfig list \<Rightarrow> GenState \<Rightarrow>
     error + GenState" where
  "processModels components sbc [] st = Inr st"
| "processModels components sbc (model # rest) st =
     (case processModel components sbc model st of
        Inl e \<Rightarrow> Inl e
      | Inr st' \<Rightarrow> processModels components sbc rest st')"

definition buildGenerators :: "Config \<Rightarrow> PrismaGenerator list" where
  "buildGenerators config =
     (let clientGenerator =
            \<lparr> gen_name = ''client'', gen_provider = ''prisma-client-js'',
              gen_output = (case cfg_output config of None \<Rightarrow> None | Some out \<Rightarrow> out_clientPath out),
              gen_config =
                (case cfg_output config of
                   None \<Rightarrow> None
                 | Some out \<Rightarrow>
                     (case out_previewFeatures out of
                        None \<Rightarrow> None
                      | Some fs \<Rightarrow> Some [(''previewFeatures'', CfgArray (map CfgString fs))])) \<rparr>
      in clientGenerator # (case cfg_generators config of None \<Rightarrow> [] | Some gs \<Rightarrow> gs))"

definition datasourceOf :: "Config \<Rightarrow> PrismaDatasource" where
  "datasourceOf config =
     (case (case cfg_output config of None \<Rightarrow> None | Some out \<Rightarrow> out_datasource out) of
        None \<Rightarrow> \<lparr> ds_provider = ''sqlite'', ds_url = ''env('' @ quoted ''DATABASE_URL'' @ '')'',
                  ds_directUrl = None \<rparr>
      | Some ds \<Rightarrow>
          \<lparr> ds_provider = (if ds_provider ds = [] then ''sqlite'' else ds_provider ds),
            ds_url = (if ds_url ds = [] then ''env('' @ quoted ''DATABASE_URL'' @ '')''
                      else ds_url ds),
            ds_directUrl = ds_directUrl ds \<rparr>)"

record GenerateResult =
  gr_schema :: string
  gr_componentsGenerated :: "string list"
  gr_warnings :: "string list"

text \<open>The run up to the assembled schema (lines 53 to 161): the final accumulators and
  the schema handed to the serializer.\<close>

definition compileModels :: "Config \<Rightarrow> ExternalModels \<Rightarrow> error + (ModelConfig list \<times> GenState)" where
  "compileModels config external =
     (let externalNames = map pm_name (ext_models external)
      in case (case cfg_mapper_model config of
                 None \<Rightarrow> Inr (readModelsFromSource config)
               | Some mapper \<Rightarrow> mapAll mapper (readModelsFromSource config)) of
           Inl e \<Rightarrow> Inl e
         | Inr modelList \<Rightarrow>
             (case readComponents config of
                Inl e \<Rightarrow> Inl e
              | Inr components \<Rightarrow>
                  (case processModels components (schemaBuilderConfigOf config externalNames)
                          modelList
                          \<lparr> gs_prismaModels = [], gs_junctionTables = [],
                            gs_warnings = ext_warnings external \<rparr> of
                     Inl e \<Rightarrow> Inl e
                   | Inr st \<Rightarrow> Inr (modelList, st))))"

definition assembleSchema :: "Config \<Rightarrow> ExternalModels \<Rightarrow> GenState \<Rightarrow> PrismaSchema" where
  "assembleSchema config external st =
     \<lparr> datasource = datasourceOf config,
       generators = buildGenerators config,
       models = ext_models external @ map snd (gs_prismaModels st) \<rparr>"

definition generate :: "Config \<Rightarrow> ExternalModels \<Rightarrow> error + GenerateResult" where
  "generate config external =
     (case compileModels config external of
        Inl e \<Rightarrow> Inl e
      | Inr (modelList, st) \<Rightarrow>
          Inr \<lparr> gr_schema = writeSchemaSync (assembleSchema config external st),
                gr_componentsGenerated = map mc_slug modelList,
                gr_warnings = gs_warnings st \<rparr>)"

text \<open>
  The junction tables of a run, for the statements about them: the tables pushed by the
  junction branch, the tables that the many-to-many fields of the run would build, in
  the order the run meets them, and the first table of each name among them.
\<close>

definition junctionsOf :: "(origin \<times> PrismaModel) list \<Rightarrow> PrismaModel list" where
  "junctionsOf entries = map snd (filter (\<lambda>entry. fst entry = FromJunctionTable) entries)"

definition junctionCandidatesOfField ::
  "string \<Rightarrow> SchemaBuilderConfig \<Rightarrow> FieldDefinition \<Rightarrow> PrismaModel list" where
  "junctionCandidatesOfField ownerName sbc field =
     (if needsJunctionTable field
      then (case buildJunctionTable ownerName field sbc of Inl e \<Rightarrow> [] | Inr t \<Rightarrow> [t])
      else [])"

definition junctionCandidates :: "SchemaBuilderConfig \<Rightarrow> ModelConfig list \<Rightarrow> PrismaModel list" where
  "junctionCandidates sbc modelList =
     concat (map (\<lambda>model. concat (map (junctionCandidatesOfField
                                         (buildModelName (mc_slug model) sbc) sbc)
                                      (mc_fields model)))
                 modelList)"

fun keepFirstFrom :: "string list \<Rightarrow> PrismaModel list \<Rightarrow> PrismaModel list" where
  "keepFirstFrom seen [] = []"
| "keepFirstFrom seen (t # ts) =
     (if pm_name t \<in> set seen then keepFirstFrom seen ts
      else t # keepFirstFrom (seen @ [pm_name t]) ts)"

text \<open>The invariant of a stretch of the run, from one state of the accumulators to a
  later one, where \<open>cs\<close> are the junction tables its many-to-many fields build.\<close>

definition junctionStep :: "GenState \<Rightarrow> GenState \<Rightarrow> PrismaModel list \<Rightarrow> bool" where
  "junctionStep st st' cs \<longleftrightarrow>
     junctionsOf (gs_prismaModels st')
       = junctionsOf (gs_prismaModels st) @ keepFirstFrom (gs_junctionTables st) cs
     \<and> gs_junctionTables st'
       = gs_junctionTables st @ map pm_name (keepFirstFrom (gs_junctionTables st) cs)"

text \<open>
  The junction tables as the statements about them name them. The fields of the models
  of a run, in the order in which the run meets them, each with the name of the table
  of its model; the name of the junction table of a relation from that table to a
  target: the name of the owner's table followed by the target identifier in Pascal
  case, which is the name of the target's table without the prefix of the run, both in
  snake case and joined by an underscore under \<^verbatim>\<open>snake_case\<close>; and the many-to-many
  relation fields whose junction table has a given name.
\<close>

definition fieldsInOrder :: "SchemaBuilderConfig \<Rightarrow> ModelConfig list \<Rightarrow> (string \<times> FieldDefinition) list" where
  "fieldsInOrder sbc modelList =
     concat (map (\<lambda>model. map (\<lambda>field. (buildModelName (mc_slug model) sbc, field))
                              (mc_fields model))
                 modelList)"

definition junctionNameOf :: "SchemaBuilderConfig \<Rightarrow> string \<Rightarrow> string \<Rightarrow> string" where
  "junctionNameOf sbc owner target =
     (if convention sbc = ''snake_case''
      then toSnakeCase owner @ ''_'' @ toSnakeCase (toPascalCase target)
      else owner @ toPascalCase target)"

definition manyToManyNamed ::
  "SchemaBuilderConfig \<Rightarrow> string \<Rightarrow> string \<times> FieldDefinition \<Rightarrow> bool" where
  "manyToManyNamed sbc n entry =
     (case entry of
        (owner, field) \<Rightarrow>
          fd_type field = ''relation''
          \<and> (case fd_config field of
                Some (RelationConfig rt target casc) \<Rightarrow>
                  rt = ''manyToMany'' \<and> junctionNameOf sbc owner target = n
              | _ \<Rightarrow> False))"

text \<open>The identifiers of a run that are put in Pascal case: the slugs of the models and
  the targets of the relations.\<close>

definition identifiersConvertible :: "ModelConfig list \<Rightarrow> bool" where
  "identifiersConvertible modelList =
     list_all (\<lambda>model. capitalsBelow256 (mc_slug model)
                 \<and> list_all (\<lambda>field. case fd_config field of
                                        Some (RelationConfig rt target casc) \<Rightarrow>
                                          capitalsBelow256 target
                                      | _ \<Rightarrow> True)
                             (mc_fields model))
              modelList"

section \<open>Inputs of the test suite\<close>

text \<open>An object literal that names a key, a label and a type only.\<close>

definition fieldOf :: "string \<Rightarrow> string \<Rightarrow> string \<Rightarrow> FieldDefinition" where
  "fieldOf k l t = \<lparr> fd_key = k, fd_label = l, fd_type = t, fd_config = None,
     fd_required = False, fd_translatable = None, fd_validation = None, fd_derived = False \<rparr>"

definition baseConfig :: SchemaBuilderConfig where
  "baseConfig = \<lparr> convention = ''PascalCase'', prefix = None, i18nEnabled = False,
     i18nTableNaming = ''${identifier}_translation'', externalModelNames = None \<rparr>"

definition i18nConfig :: SchemaBuilderConfig where
  "i18nConfig = baseConfig \<lparr> i18nEnabled := True \<rparr>"

text \<open>A post with a title kept on the base table and a translatable body.\<close>

definition postModel :: ModelConfig where
  "postModel = \<lparr> mc_slug = ''post'', mc_name = ''Post'',
     mc_fields = [(fieldOf ''title'' ''Title'' ''text'')
                    \<lparr> fd_required := True, fd_translatable := Some False \<rparr>,
                  (fieldOf ''body'' ''Body'' ''rich'') \<lparr> fd_translatable := Some True \<rparr>],
     mc_settings = None \<rparr>"

text \<open>A relation field that names no configuration: the definition schema takes it,
  since \<^verbatim>\<open>config\<close> is optional there.\<close>

definition authorField :: FieldDefinition where
  "authorField = fieldOf ''author'' ''Author'' ''relation''"

definition postWithAuthor :: ModelConfig where
  "postWithAuthor = \<lparr> mc_slug = ''post'', mc_name = ''Post'',
     mc_fields = [(fieldOf ''title'' ''Title'' ''text'') \<lparr> fd_required := True \<rparr>, authorField],
     mc_settings = None \<rparr>"

text \<open>The self-referential many-to-many relation of the edge-case tests, declared twice.\<close>

definition relatedPosts :: "string \<Rightarrow> FieldDefinition" where
  "relatedPosts k = (fieldOf k ''Related Posts'' ''relation'')
     \<lparr> fd_translatable := Some False,
       fd_config := Some (RelationConfig ''manyToMany'' ''post'' ''restrict'') \<rparr>"

definition selfRelatedConfig :: Config where
  "selfRelatedConfig = \<lparr>
     cfg_models = [\<lparr> mc_slug = ''post'', mc_name = ''Post'',
       mc_fields = [(fieldOf ''title'' ''Title'' ''text'')
                      \<lparr> fd_required := True, fd_translatable := Some False \<rparr>,
                    relatedPosts ''related_posts'', relatedPosts ''see_also''],
       mc_settings = None \<rparr>],
     cfg_components = None, cfg_mapper_model = None, cfg_mapper_component = None,
     cfg_i18n = None, cfg_naming = None, cfg_output = None, cfg_generators = None \<rparr>"

definition noExternalModels :: ExternalModels where
  "noExternalModels = \<lparr> ext_models = [], ext_warnings = [] \<rparr>"

text \<open>Components: a block with a title, and one whose own field is keyed \<^verbatim>\<open>order\<close>.\<close>

definition blockComponent :: ComponentEntity where
  "blockComponent = \<lparr> ce_slug = ''block'', ce_name = ''Block'',
     ce_fields = [(fieldOf ''title'' ''Title'' ''text'') \<lparr> fd_required := True \<rparr>] \<rparr>"

definition rankedComponent :: ComponentEntity where
  "rankedComponent = \<lparr> ce_slug = ''ranked'', ce_name = ''Ranked'',
     ce_fields = [(fieldOf ''order'' ''Order'' ''number'')
                    \<lparr> fd_translatable := Some False,
                      fd_config := Some (NumberConfig (Some ''integer'') None) \<rparr>] \<rparr>"

text \<open>A post with many categories, in a run whose tables carry the prefix \<^verbatim>\<open>Cms\<close>.\<close>

definition manyToManyTo :: "string \<Rightarrow> string \<Rightarrow> FieldDefinition" where
  "manyToManyTo k target = (fieldOf k k ''relation'')
     \<lparr> fd_translatable := Some False,
       fd_config := Some (RelationConfig ''manyToMany'' target ''restrict'') \<rparr>"

definition titleField :: FieldDefinition where
  "titleField = (fieldOf ''title'' ''Title'' ''text'')
     \<lparr> fd_required := True, fd_translatable := Some False \<rparr>"

definition directInput :: "ModelConfig list \<Rightarrow> Config" where
  "directInput modelList = \<lparr> cfg_models = modelList,
     cfg_components = None, cfg_mapper_model = None, cfg_mapper_component = None,
     cfg_i18n = None, cfg_naming = None, cfg_output = None, cfg_generators = None \<rparr>"

definition prefixedConfig :: Config where
  "prefixedConfig =
     (directInput
        [\<lparr> mc_slug = ''post'', mc_name = ''Post'',
           mc_fields = [titleField, manyToManyTo ''categories'' ''category''],
           mc_settings = None \<rparr>,
         \<lparr> mc_slug = ''category'', mc_name = ''Category'', mc_fields = [titleField],
           mc_settings = None \<rparr>])
     \<lparr> cfg_naming := Some \<lparr> naming_convention = ''PascalCase'', naming_prefix = Some ''Cms'' \<rparr> \<rparr>"

text \<open>Two different relations whose junction tables get the same name: from \<^verbatim>\<open>post\<close> to
  \<^verbatim>\<open>tag-group\<close> and from \<^verbatim>\<open>post-tag\<close> to \<^verbatim>\<open>group\<close>.\<close>

definition sameNameConfig :: Config where
  "sameNameConfig =
     directInput
        [\<lparr> mc_slug = ''post'', mc_name = ''Post'',
           mc_fields = [titleField, manyToManyTo ''groups'' ''tag-group''],
           mc_settings = None \<rparr>,
         \<lparr> mc_slug = ''post-tag'', mc_name = ''Post tag'',
           mc_fields = [titleField, manyToManyTo ''groups'' ''group''],
           mc_settings = None \<rparr>]"

text \<open>A post with a component whose own field is a many-to-many relation.\<close>

definition componentRelationConfig :: Config where
  "componentRelationConfig =
     (directInput
        [\<lparr> mc_slug = ''post'', mc_name = ''Post'',
           mc_fields = [titleField,
                        (fieldOf ''meta'' ''Meta'' ''component'')
                          \<lparr> fd_config := Some (ComponentConfig ''meta'' False None) \<rparr>],
           mc_settings = None \<rparr>])
     \<lparr> cfg_components := Some [\<lparr> ce_slug = ''meta'', ce_name = ''Meta'',
                                ce_fields = [manyToManyTo ''tags'' ''tag''] \<rparr>] \<rparr>"

section \<open>Definition schema and validator (src/field-config-schema.ts)\<close>

text \<open>
  A raw definition is a JSON value, as \<^verbatim>\<open>JSON.parse\<close> or the caller hands it over. The
  schemas of the repository are written with the combinators of the zod library
  (version 4); each combinator is modelled by the list of issues it reports for an
  input, which is all that \<^verbatim>\<open>parse\<close> needs to decide between returning and throwing.
  A property that is absent and a property that is \<^verbatim>\<open>undefined\<close> are the same input.
\<close>

datatype Json =
    JNull
  | JBool bool
  | JNum rat
  | JStr string
  | JArr "Json list"
  | JObj "(string \<times> Json) list"

text \<open>\<^verbatim>\<open>input[key]\<close>; of two entries with the same key an object keeps the later one.\<close>

fun getProp :: "string \<Rightarrow> Json \<Rightarrow> Json option" where
  "getProp key (JObj entries) = map_of (rev entries) key"
| "getProp key other = None"

datatype PathSeg = Key string | Index nat

datatype IssueCode =
    invalid_type | too_small | too_big | invalid_format | invalid_value | invalid_union | custom

text \<open>
  An issue: where it is, what it is, the message the schema gives for it (the library
  words the others), and whether later checks may still run after it. Issues of a
  failed type test are not continuable, issues of checks are.
\<close>

record Issue =
  i_path :: "PathSeg list"
  i_code :: IssueCode
  i_message :: "string option"
  i_continue :: bool

type_synonym zschema = "Json option \<Rightarrow> Issue list"

definition typeIssue :: "IssueCode \<Rightarrow> Issue" where
  "typeIssue code = \<lparr> i_path = [], i_code = code, i_message = None, i_continue = False \<rparr>"

definition checkIssue :: "IssueCode \<Rightarrow> Issue" where
  "checkIssue code = \<lparr> i_path = [], i_code = code, i_message = None, i_continue = True \<rparr>"

definition prefixIssues :: "PathSeg \<Rightarrow> Issue list \<Rightarrow> Issue list" where
  "prefixIssues seg issues = map (\<lambda>iss. iss \<lparr> i_path := seg # i_path iss \<rparr>) issues"

definition aborted :: "Issue list \<Rightarrow> bool" where
  "aborted issues = list_ex (\<lambda>iss. \<not> i_continue iss) issues"

text \<open>
  A check of a schema: it runs when its own \<^verbatim>\<open>when\<close> says so or, if it has none, when
  no issue so far forbids to continue.
\<close>

datatype ZCheck = ZCheck (ch_when: "(Json option \<Rightarrow> bool) option") (ch_run: "Json option \<Rightarrow> Issue list")

fun runChecks :: "ZCheck list \<Rightarrow> Json option \<Rightarrow> bool \<Rightarrow> Issue list \<Rightarrow> Issue list" where
  "runChecks [] v isAborted issues = issues"
| "runChecks (ch # chs) v isAborted issues =
     (if (case ch_when ch of Some w \<Rightarrow> \<not> w v | None \<Rightarrow> isAborted)
      then runChecks chs v isAborted issues
      else (let found = ch_run ch v
            in runChecks chs v (isAborted \<or> aborted found) (issues @ found)))"

definition withChecks :: "zschema \<Rightarrow> ZCheck list \<Rightarrow> zschema" where
  "withChecks parse checks v = (let issues = parse v in runChecks checks v (aborted issues) issues)"

definition hasLength :: "Json option \<Rightarrow> bool" where
  "hasLength v = (case v of Some (JStr s) \<Rightarrow> True | Some (JArr xs) \<Rightarrow> True | _ \<Rightarrow> False)"

definition lengthOf :: "Json option \<Rightarrow> nat" where
  "lengthOf v = (case v of Some (JStr s) \<Rightarrow> length s | Some (JArr xs) \<Rightarrow> length xs | _ \<Rightarrow> 0)"

text \<open>\<^verbatim>\<open>.min(n)\<close> on a string or an array.\<close>

definition minLength :: "nat \<Rightarrow> ZCheck" where
  "minLength n = ZCheck (Some hasLength)
     (\<lambda>v. if lengthOf v < n then [checkIssue too_small] else [])"

text \<open>\<^verbatim>\<open>.regex(pattern)\<close>, the pattern given as the set of strings it matches.\<close>

definition regex :: "(string \<Rightarrow> bool) \<Rightarrow> ZCheck" where
  "regex matches = ZCheck None
     (\<lambda>v. case v of Some (JStr s) \<Rightarrow> if matches s then [] else [checkIssue invalid_format]
               | _ \<Rightarrow> [checkIssue invalid_format])"

text \<open>\<^verbatim>\<open>.refine(predicate, { message, path })\<close>\<close>

definition refine :: "(Json option \<Rightarrow> bool) \<Rightarrow> string \<Rightarrow> PathSeg list \<Rightarrow> ZCheck" where
  "refine predicate message path = ZCheck None
     (\<lambda>v. if predicate v then []
          else [\<lparr> i_path = path, i_code = custom, i_message = Some message, i_continue = True \<rparr>])"

definition isInteger :: "rat \<Rightarrow> bool" where
  "isInteger r = (snd (quotient_of r) = 1)"

definition intCheck :: ZCheck where
  "intCheck = ZCheck None
     (\<lambda>v. case v of Some (JNum r) \<Rightarrow> if isInteger r then [] else [typeIssue invalid_type]
               | _ \<Rightarrow> [typeIssue invalid_type])"

definition minValue :: "rat \<Rightarrow> ZCheck" where
  "minValue n = ZCheck None
     (\<lambda>v. case v of Some (JNum r) \<Rightarrow> if r < n then [checkIssue too_small] else [] | _ \<Rightarrow> [])"

definition maxValue :: "rat \<Rightarrow> ZCheck" where
  "maxValue n = ZCheck None
     (\<lambda>v. case v of Some (JNum r) \<Rightarrow> if n < r then [checkIssue too_big] else [] | _ \<Rightarrow> [])"

definition z_string :: zschema where
  "z_string v = (case v of Some (JStr s) \<Rightarrow> [] | _ \<Rightarrow> [typeIssue invalid_type])"

definition z_number :: zschema where
  "z_number v = (case v of Some (JNum r) \<Rightarrow> [] | _ \<Rightarrow> [typeIssue invalid_type])"

definition z_boolean :: zschema where
  "z_boolean v = (case v of Some (JBool b) \<Rightarrow> [] | _ \<Rightarrow> [typeIssue invalid_type])"

definition z_enum :: "string list \<Rightarrow> zschema" where
  "z_enum values v =
     (case v of Some (JStr s) \<Rightarrow> if s \<in> set values then [] else [typeIssue invalid_value]
              | _ \<Rightarrow> [typeIssue invalid_value])"

definition z_literal :: "string \<Rightarrow> zschema" where
  "z_literal value v = z_enum [value] v"

definition z_optional :: "zschema \<Rightarrow> zschema" where
  "z_optional inner v = (case v of None \<Rightarrow> [] | Some x \<Rightarrow> inner v)"

text \<open>\<^verbatim>\<open>.default(value)\<close>: an absent input is replaced by the default, which the inner
  schema accepts.\<close>

definition z_default :: "zschema \<Rightarrow> zschema" where
  "z_default inner v = (case v of None \<Rightarrow> [] | Some x \<Rightarrow> inner v)"

text \<open>\<^verbatim>\<open>z.object(shape)\<close>, with or without \<^verbatim>\<open>.passthrough()\<close>: every property of the shape
  is parsed, in the order of the shape, and its issues are put under its key. Unknown
  properties raise no issue.\<close>

definition z_object :: "(string \<times> zschema) list \<Rightarrow> zschema" where
  "z_object shape v =
     (case v of
        Some (JObj entries) \<Rightarrow>
          concat (map (\<lambda>(key, schema). prefixIssues (Key key) (schema (getProp key (JObj entries))))
                      shape)
      | _ \<Rightarrow> [typeIssue invalid_type])"

definition z_array :: "zschema \<Rightarrow> zschema" where
  "z_array element v =
     (case v of
        Some (JArr items) \<Rightarrow>
          concat (map (\<lambda>(i, item). prefixIssues (Index i) (element (Some item)))
                      (enumerate 0 items))
      | _ \<Rightarrow> [typeIssue invalid_type])"

definition z_union :: "zschema list \<Rightarrow> zschema" where
  "z_union options v =
     (if list_ex (\<lambda>alternative. alternative v = []) options then [] else [typeIssue invalid_union])"

text \<open>\<^verbatim>\<open>z.discriminatedUnion(discriminator, options)\<close>, each option given with the literal
  of its discriminator: the option of the input's discriminator parses the input.\<close>

definition z_discriminatedUnion :: "string \<Rightarrow> (string \<times> zschema) list \<Rightarrow> zschema" where
  "z_discriminatedUnion discriminator options v =
     (case v of
        Some (JObj entries) \<Rightarrow>
          (case getProp discriminator (JObj entries) of
             Some (JStr tag) \<Rightarrow>
               (case map_of options tag of
                  Some alternative \<Rightarrow> alternative v
                | None \<Rightarrow> [(typeIssue invalid_union) \<lparr> i_path := [Key discriminator] \<rparr>])
           | _ \<Rightarrow> [(typeIssue invalid_union) \<lparr> i_path := [Key discriminator] \<rparr>])
      | _ \<Rightarrow> [typeIssue invalid_type])"

definition RESERVED_COMPONENT_AB_TESTING :: "string list" where
  "RESERVED_COMPONENT_AB_TESTING = [''variant_id'', ''enabled'']"

definition RESERVED_SYSTEM :: "string list" where
  "RESERVED_SYSTEM = [''id'', ''created_at'', ''updated_at'']"

text \<open>\<^verbatim>\<open>/^[a-z][a-z0-9_-]*$/\<close>\<close>

definition SLUG :: "string \<Rightarrow> bool" where
  "SLUG s = (case s of
               [] \<Rightarrow> False
             | c # cs \<Rightarrow> c \<in> set lowerChars
                 \<and> list_all (\<lambda>d. d \<in> set lowerChars \<or> d \<in> set digitChars
                                 \<or> d = CHR ''_'' \<or> d = CHR ''-'') cs)"

definition MSG_UNIQUE_FIELD_KEYS :: string where
  "MSG_UNIQUE_FIELD_KEYS = ''Field keys must be unique''"

definition MSG_RESERVED_FIELD_KEY :: string where
  "MSG_RESERVED_FIELD_KEY = ''Field key is reserved by the system''"

definition MSG_RESERVED_AB_FIELD :: string where
  "MSG_RESERVED_AB_FIELD = ''variant_id and enabled are reserved for A/B testing''"

definition FieldTypeEnum :: "string list" where
  "FieldTypeEnum = [''text'', ''rich'', ''json'', ''relation'', ''media'', ''number'',
     ''boolean'', ''date'', ''select'', ''component'']"

definition FieldValidationSchema :: zschema where
  "FieldValidationSchema = z_optional (z_object
     [(''minLength'', z_optional z_number),
      (''maxLength'', z_optional z_number),
      (''pattern'', z_optional z_string),
      (''email'', z_optional z_boolean),
      (''url'', z_optional z_boolean),
      (''uuid'', z_optional z_boolean),
      (''cuid'', z_optional z_boolean),
      (''min'', z_optional z_number),
      (''max'', z_optional z_number),
      (''int'', z_optional z_boolean),
      (''positive'', z_optional z_boolean),
      (''negative'', z_optional z_boolean),
      (''minItems'', z_optional z_number),
      (''maxItems'', z_optional z_number),
      (''minDate'', z_optional z_string),
      (''maxDate'', z_optional z_string),
      (''custom'', z_optional z_string),
      (''errorMessage'', z_optional z_string)])"

definition TextConfigShape :: "(string \<times> zschema) list" where
  "TextConfigShape = [(''multiline'', z_optional z_boolean), (''default'', z_optional z_string)]"

definition RichConfigShape :: "(string \<times> zschema) list" where
  "RichConfigShape = []"

definition NumberConfigShape :: "(string \<times> zschema) list" where
  "NumberConfigShape =
     [(''step'', z_optional z_number),
      (''default'', z_optional z_number),
      (''format'', z_optional (z_enum [''integer'', ''decimal'', ''currency'', ''percentage'']))]"

definition SelectConfigShape :: "(string \<times> zschema) list" where
  "SelectConfigShape =
     [(''multiple'', z_optional (z_default z_boolean)),
      (''options'', withChecks
          (z_array (z_union [z_string, z_object [(''value'', z_string), (''label'', z_string)]]))
          [minLength 1]),
      (''default'', z_optional (z_union [z_string, z_array z_string]))]"

definition JsonConfigShape :: "(string \<times> zschema) list" where
  "JsonConfigShape = []"

definition MediaConfigShape :: "(string \<times> zschema) list" where
  "MediaConfigShape = [(''multiple'', z_default z_boolean)]"

definition RelationConfigShape :: "(string \<times> zschema) list" where
  "RelationConfigShape =
     [(''relationType'', z_enum [''oneToOne'', ''oneToMany'', ''manyToOne'', ''manyToMany'']),
      (''targetModel'', z_string),
      (''displayField'', z_string),
      (''cascade'', z_default (z_enum [''restrict'', ''cascade'', ''setNull'']))]"

definition DateConfigShape :: "(string \<times> zschema) list" where
  "DateConfigShape =
     [(''format'', z_default (z_enum [''date'', ''datetime'', ''time''])),
      (''default'', z_optional z_string)]"

definition ComponentContextSchema :: zschema where
  "ComponentContextSchema = z_optional (z_object
     [(''aiPrompt'', z_optional (z_object
         [(''template'', z_string),
          (''autoGenerate'', z_optional (z_default z_boolean)),
          (''includeHistory'', z_optional (z_default z_boolean))])),
      (''abTesting'', z_optional (z_object
         [(''enabled'', z_default z_boolean),
          (''variantCount'',
             z_optional (z_default (withChecks z_number [intCheck, minValue 2, maxValue 5])))]))])"

definition ComponentConfigShape :: "(string \<times> zschema) list" where
  "ComponentConfigShape =
     [(''slug'', withChecks z_string [minLength 1, regex SLUG]),
      (''repeatable'', z_default z_boolean),
      (''context'', ComponentContextSchema)]"

definition FieldConfigSchema :: zschema where
  "FieldConfigSchema = z_discriminatedUnion ''type''
     [(''text'', z_object ((''type'', z_literal ''text'') # TextConfigShape)),
      (''rich'', z_object ((''type'', z_literal ''rich'') # RichConfigShape)),
      (''number'', z_object ((''type'', z_literal ''number'') # NumberConfigShape)),
      (''boolean'', z_object [(''type'', z_literal ''boolean''), (''default'', z_optional z_boolean)]),
      (''select'', z_object ((''type'', z_literal ''select'') # SelectConfigShape)),
      (''json'', z_object ((''type'', z_literal ''json'') # JsonConfigShape)),
      (''media'', z_object ((''type'', z_literal ''media'') # MediaConfigShape)),
      (''relation'', z_object ((''type'', z_literal ''relation'') # RelationConfigShape)),
      (''component'', z_object ((''type'', z_literal ''component'') # ComponentConfigShape)),
      (''date'', z_object ((''type'', z_literal ''date'') # DateConfigShape))]"

definition notSystemKey :: "Json option \<Rightarrow> bool" where
  "notSystemKey v = (case v of Some (JStr key) \<Rightarrow> key \<notin> set RESERVED_SYSTEM | _ \<Rightarrow> True)"

definition FieldKeySchema :: zschema where
  "FieldKeySchema = withChecks z_string
     [minLength 1, regex SLUG, refine notSystemKey MSG_RESERVED_FIELD_KEY []]"

definition FieldDefinitionSchema :: zschema where
  "FieldDefinitionSchema = z_object
     [(''key'', FieldKeySchema),
      (''label'', withChecks z_string [minLength 1]),
      (''type'', z_enum FieldTypeEnum),
      (''config'', z_optional FieldConfigSchema),
      (''required'', z_default z_boolean),
      (''translatable'', z_optional (z_default z_boolean)),
      (''validation'', FieldValidationSchema)]"

definition ModelConfigSchemaBase :: zschema where
  "ModelConfigSchemaBase = z_object
     [(''slug'', withChecks z_string [minLength 1, regex SLUG]),
      (''name'', withChecks z_string [minLength 1]),
      (''fields'', withChecks (z_array FieldDefinitionSchema) [minLength 1]),
      (''settings'', z_optional (z_object
         [(''enableI18n'', z_optional z_boolean),
          (''sortField'', z_optional z_string)]))]"

text \<open>The keys of the fields of a definition, \<^verbatim>\<open>model.fields.map((f) => f.key)\<close>.\<close>

definition fieldKeys :: "Json option \<Rightarrow> Json option list" where
  "fieldKeys v =
     (case v of
        Some raw \<Rightarrow> (case getProp ''fields'' raw of
                       Some (JArr fs) \<Rightarrow> map (getProp ''key'') fs
                     | _ \<Rightarrow> [])
      | None \<Rightarrow> [])"

definition uniqueFieldKeys :: "Json option \<Rightarrow> bool" where
  "uniqueFieldKeys v = distinct (fieldKeys v)"

definition ModelConfigSchema :: zschema where
  "ModelConfigSchema = withChecks ModelConfigSchemaBase
     [refine uniqueFieldKeys MSG_UNIQUE_FIELD_KEYS []]"

definition noReservedABFields :: "Json option \<Rightarrow> bool" where
  "noReservedABFields v =
     (\<not> list_ex (\<lambda>key. case key of
                          Some (JStr k) \<Rightarrow> k \<in> set RESERVED_COMPONENT_AB_TESTING
                        | _ \<Rightarrow> False)
                 (fieldKeys v))"

definition ComponentEntitySchema :: zschema where
  "ComponentEntitySchema = withChecks
     (z_object
        [(''slug'', withChecks z_string [minLength 1, regex SLUG]),
         (''name'', withChecks z_string [minLength 1]),
         (''fields'', withChecks (z_array FieldDefinitionSchema) [minLength 1])])
     [refine noReservedABFields MSG_RESERVED_AB_FIELD [Key ''fields'']]"

text \<open>
  \<^verbatim>\<open>getValidationErrors\<close>: one line for every issue, the path joined by dots, then the
  message. \<open>libraryMessage\<close> is the wording of the library for the issues that the
  schema gives no message for.
\<close>

definition pathSegText :: "PathSeg \<Rightarrow> string" where
  "pathSegText seg = (case seg of Key k \<Rightarrow> k | Index i \<Rightarrow> showNat i)"

definition issueMessage :: "(IssueCode \<Rightarrow> string) \<Rightarrow> Issue \<Rightarrow> string" where
  "issueMessage libraryMessage iss =
     (case i_message iss of Some m \<Rightarrow> m | None \<Rightarrow> libraryMessage (i_code iss))"

definition getValidationErrors :: "(IssueCode \<Rightarrow> string) \<Rightarrow> Issue list \<Rightarrow> string list" where
  "getValidationErrors libraryMessage issues =
     map (\<lambda>err. join ''.'' (map pathSegText (i_path err)) @ '': '' @ issueMessage libraryMessage err)
         issues"

section \<open>Reader (src/core/reader.ts)\<close>

text \<open>
  A row of the data source with its definition after the mapper, or after
  \<^verbatim>\<open>JSON.parse\<close>. Reading validates each row in turn; the first definition that the schema
  refuses ends the read with an error that lists the validation errors.
\<close>

record EAVDatabaseRow =
  row_id :: string
  row_slug :: string
  row_definition :: Json

definition validateRow :: "(IssueCode \<Rightarrow> string) \<Rightarrow> EAVDatabaseRow \<Rightarrow> error + Json" where
  "validateRow libraryMessage row =
     (let issues = ModelConfigSchema (Some (row_definition row))
      in if issues = [] then Inr (row_definition row)
         else Inl (Error (''Validation failed for model '' @ quoted (row_slug row)
                          @ '' (id: '' @ row_id row @ ''):'' @ [CHR 0x0A]
                          @ join [CHR 0x0A] (getValidationErrors libraryMessage issues))))"

fun validateRows :: "(IssueCode \<Rightarrow> string) \<Rightarrow> EAVDatabaseRow list \<Rightarrow> error + Json list" where
  "validateRows libraryMessage [] = Inr []"
| "validateRows libraryMessage (row # rows) =
     (case validateRow libraryMessage row of
        Inl e \<Rightarrow> Inl e
      | Inr validated \<Rightarrow>
          (case validateRows libraryMessage rows of
             Inl e \<Rightarrow> Inl e
           | Inr others \<Rightarrow> Inr (validated # others)))"

definition readModels :: "(IssueCode \<Rightarrow> string) \<Rightarrow> EAVDatabaseRow list \<Rightarrow> error + Json list" where
  "readModels libraryMessage rows =
     (case validateRows libraryMessage rows of
        Inl (Error message) \<Rightarrow>
          if includesText message ''validation'' then Inl (Error message)
          else Inl (Error (''Failed to read models from database: '' @ message))
      | Inr validated \<Rightarrow> Inr validated)"

section \<open>Raw definitions of the test suite\<close>

definition rawField :: "string \<Rightarrow> string \<Rightarrow> string \<Rightarrow> Json" where
  "rawField k l t = JObj [(''key'', JStr k), (''label'', JStr l), (''type'', JStr t)]"

definition rawDefinition :: "string \<Rightarrow> string \<Rightarrow> Json list \<Rightarrow> Json" where
  "rawDefinition sl n fs = JObj [(''slug'', JStr sl), (''name'', JStr n), (''fields'', JArr fs)]"

text \<open>The raw form of \<open>postWithAuthor\<close>.\<close>

definition rawPostWithAuthor :: Json where
  "rawPostWithAuthor = rawDefinition ''post'' ''Post''
     [JObj [(''key'', JStr ''title''), (''label'', JStr ''Title''), (''type'', JStr ''text''),
            (''required'', JBool True)],
      rawField ''author'' ''Author'' ''relation'']"

definition rawModelWithId :: Json where
  "rawModelWithId = rawDefinition ''post'' ''Post''
     [rawField ''title'' ''Title'' ''text'', rawField ''id'' ''Id'' ''text'']"

definition rawComponentWithVariant :: Json where
  "rawComponentWithVariant = rawDefinition ''hero'' ''Hero''
     [rawField ''variant_id'' ''Variant'' ''text'']"

text \<open>Two fields sharing a key that fails the slug pattern; and two fields sharing a
  key in a definition without a name.\<close>

definition rawBadDuplicateKeys :: Json where
  "rawBadDuplicateKeys = rawDefinition ''post'' ''Post''
     [rawField ''Title'' ''Title'' ''text'', rawField ''Title'' ''Title 2'' ''text'']"

definition rawDuplicateKeysNoName :: Json where
  "rawDuplicateKeysNoName = JObj [(''slug'', JStr ''post''),
     (''fields'', JArr [rawField ''title'' ''Title'' ''text'',
                        rawField ''title'' ''Title 2'' ''text''])]"

section \<open>External-model parser (src/utils/prisma-parser.ts)\<close>

text \<open>
  The parser has its own types for what it extracts. Of a field the model keeps the
  name, the type and the two flags, of a table the name and the fields: the
  attributes, default, map and relation of a field and the indexes, unique constraints
  and map of a table are read from the same lines after these are fixed and do not
  change them.
\<close>

record ParsedField =
  xf_name :: string
  xf_type :: string
  xf_list :: "bool option"
  xf_optional :: "bool option"

record ParsedModel =
  xm_name :: string
  xm_fields :: "ParsedField list"

text \<open>\<^verbatim>\<open>\w\<close>\<close>

definition isWord :: "char \<Rightarrow> bool" where
  "isWord c = (c \<in> set lowerChars \<or> c \<in> set upperChars \<or> c \<in> set digitChars \<or> c = CHR ''_'')"

text \<open>\<^verbatim>\<open>line.split(/\s+/)\<close>: every maximal run of white space separates two parts, so that
  white space at the start or at the end of the line gives an empty part there.\<close>

fun splitSpaces :: "string \<Rightarrow> string list" where
  "splitSpaces [] = [[]]"
| "splitSpaces (c # cs) =
     (if isSpace c
      then (case cs of
              [] \<Rightarrow> [[], []]
            | d # ds \<Rightarrow> if isSpace d then splitSpaces cs else [] # splitSpaces cs)
      else (case splitSpaces cs of
              [] \<Rightarrow> [[c]]
            | w # ws \<Rightarrow> (c # w) # ws))"

definition parseFieldLine :: "string \<Rightarrow> ParsedField option" where
  "parseFieldLine line =
     (let parts = splitSpaces line
      in if length parts < 2 then None
         else (let name = parts ! 0; typeStr = parts ! 1
               in if name = [] then None
                  else if typeStr = [] then None
                  else (let optional = endsWith typeStr ''?'';
                            typeStr1 = (if optional then butlast typeStr else typeStr);
                            isList = endsWith typeStr1 ''[]'';
                            typeStr2 = (if isList then butlast (butlast typeStr1) else typeStr1)
                        in Some \<lparr> xf_name = name, xf_type = typeStr2,
                                  xf_list = (if isList then Some True else None),
                                  xf_optional = (if optional \<and> \<not> isList then Some True
                                                 else None) \<rparr>)))"

text \<open>The loop over the lines of a block: comments and block attributes are passed
  over, every other line is a field line.\<close>

definition parseLine :: "string \<Rightarrow> ParsedField list" where
  "parseLine line =
     (if startsWith line ''//'' then []
      else if startsWith line ''@@index'' then []
      else if startsWith line ''@@unique'' then []
      else if startsWith line ''@@map'' then []
      else (case parseFieldLine line of None \<Rightarrow> [] | Some field \<Rightarrow> [field]))"

definition bodyLines :: "string \<Rightarrow> string list" where
  "bodyLines modelBody =
     filter (\<lambda>l. l \<noteq> []) (map trim (splitOn (\<lambda>c. c = CHR 0x0A) modelBody))"

definition parseModelBlock :: "string \<Rightarrow> string \<Rightarrow> ParsedModel" where
  "parseModelBlock modelName modelBody =
     \<lparr> xm_name = modelName, xm_fields = concat (map parseLine (bodyLines modelBody)) \<rparr>"

text \<open>
  \<^verbatim>\<open>/model\s+(\w+)\s*\{([^}]+)\}/\<close> tried at the start of a text: the name, the body and
  the length of the match. Each greedy part of the pattern is followed by something it
  cannot match itself, so that giving characters back never helps.
\<close>

definition matchModelAt :: "string \<Rightarrow> (string \<times> string \<times> nat) option" where
  "matchModelAt s =
     (if \<not> startsWith s ''model'' then None
      else (let r1 = drop 5 s;
                sp1 = takeWhile isSpace r1;
                r2 = dropWhile isSpace r1;
                name = takeWhile isWord r2;
                r3 = dropWhile isWord r2;
                sp2 = takeWhile isSpace r3;
                r4 = dropWhile isSpace r3
            in if sp1 = [] \<or> name = [] then None
               else (case r4 of
                       [] \<Rightarrow> None
                     | c # r5 \<Rightarrow>
                         if c \<noteq> CHR ''{'' then None
                         else (let body = takeWhile (\<lambda>d. d \<noteq> CHR ''}'') r5;
                                   r6 = dropWhile (\<lambda>d. d \<noteq> CHR ''}'') r5
                               in if body = [] \<or> r6 = [] then None
                                  else Some (name, body,
                                         5 + length sp1 + length name + length sp2 + 1
                                         + length body + 1)))))"

text \<open>
  The loop of \<^verbatim>\<open>extractModelsFromString\<close>: the pattern is searched from the end of the
  last match on. \<open>skip\<close> counts the characters of the last match that are still ahead.
\<close>

fun scanModels :: "nat \<Rightarrow> string \<Rightarrow> ParsedModel list" where
  "scanModels skip [] = []"
| "scanModels skip (c # cs) =
     (if 0 < skip then scanModels (skip - 1) cs
      else (case matchModelAt (c # cs) of
              None \<Rightarrow> scanModels 0 cs
            | Some (modelName, modelBody, len) \<Rightarrow>
                parseModelBlock modelName modelBody # scanModels (len - 1) cs))"

definition extractModelsFromString :: "string \<Rightarrow> ParsedModel list" where
  "extractModelsFromString schema = scanModels 0 schema"

section \<open>Round trip through the serializer and the parser\<close>

text \<open>What the claim compares: of a table its name and, of every column, the name and
  the truth values of the list and optional flags.\<close>

definition writtenColumn :: "PrismaField \<Rightarrow> string \<times> bool \<times> bool" where
  "writtenColumn f = (pf_name f, truthy (pf_list f), truthy (pf_optional f))"

definition writtenTable :: "PrismaModel \<Rightarrow> string \<times> (string \<times> bool \<times> bool) list" where
  "writtenTable m = (pm_name m, map writtenColumn (pm_fields m))"

definition extractedColumn :: "ParsedField \<Rightarrow> string \<times> bool \<times> bool" where
  "extractedColumn f = (xf_name f, truthy (xf_list f), truthy (xf_optional f))"

definition extractedTable :: "ParsedModel \<Rightarrow> string \<times> (string \<times> bool \<times> bool) list" where
  "extractedTable m = (xm_name m, map extractedColumn (xm_fields m))"

text \<open>
  The schemas that come back from the parser as they were written. A table name is a
  word of the pattern. A column name is not empty, holds no white space and no closing
  brace, and does not begin like a comment or a block attribute; a column type is a
  word. No attribute, relation, map, validation comment, index or unique constraint
  holds a closing brace or a line break. The datasource and generator blocks do not
  hold the keyword of a model block.
\<close>

definition noBreak :: "string \<Rightarrow> bool" where
  "noBreak s = list_all (\<lambda>c. c \<noteq> CHR ''}'' \<and> c \<noteq> CHR 0x0A) s"

definition plainWord :: "string \<Rightarrow> bool" where
  "plainWord s = (s \<noteq> [] \<and> list_all isWord s)"

definition columnNameOk :: "string \<Rightarrow> bool" where
  "columnNameOk n =
     (n \<noteq> [] \<and> list_all (\<lambda>c. \<not> isSpace c \<and> c \<noteq> CHR ''}'') n
      \<and> hd n \<noteq> CHR ''/'' \<and> hd n \<noteq> CHR ''@'')"

definition roundTripColumn :: "PrismaField \<Rightarrow> bool" where
  "roundTripColumn f =
     (columnNameOk (pf_name f) \<and> plainWord (pf_type f)
      \<and> list_all noBreak (case pf_attributes f of None \<Rightarrow> [] | Some attrs \<Rightarrow> attrs)
      \<and> (case pf_relation f of None \<Rightarrow> True | Some r \<Rightarrow> noBreak (formatRelation r))
      \<and> (case pf_map f of None \<Rightarrow> True | Some m \<Rightarrow> noBreak m)
      \<and> (case buildZodComment (pf_validation f) of None \<Rightarrow> True | Some c \<Rightarrow> noBreak c))"

definition roundTripTable :: "PrismaModel \<Rightarrow> bool" where
  "roundTripTable m =
     (plainWord (pm_name m) \<and> list_all roundTripColumn (pm_fields m)
      \<and> list_all (list_all noBreak) (case pm_indexes m of None \<Rightarrow> [] | Some ixs \<Rightarrow> ixs)
      \<and> list_all (list_all noBreak) (case pm_unique m of None \<Rightarrow> [] | Some us \<Rightarrow> us)
      \<and> (case pm_map m of None \<Rightarrow> True | Some n \<Rightarrow> noBreak n))"

definition roundTripSchema :: "PrismaSchema \<Rightarrow> bool" where
  "roundTripSchema schema =
     (\<not> includesText (writeDatasource (datasource schema)) ''model''
      \<and> list_all (\<lambda>g. \<not> includesText (writeGenerator g) ''model'') (generators schema)
      \<and> list_all roundTripTable (models schema))"

text \<open>What the parser gives back for a column: the optional flag of a column that is
  not a list.\<close>

definition recoveredColumn :: "PrismaField \<Rightarrow> string \<times> bool \<times> bool" where
  "recoveredColumn f =
     (pf_name f, truthy (pf_list f), truthy (pf_optional f) \<and> \<not> truthy (pf_list f))"

definition recoveredTable :: "PrismaModel \<Rightarrow> string \<times> (string \<times> bool \<times> bool) list" where
  "recoveredTable m = (pm_name m, map recoveredColumn (pm_fields m))"

text \<open>What the parser makes of a column and of a table of such a schema, and the parts of
  the text of a table: the lines between its braces, and the fields of one line.\<close>

definition parsedColumn :: "PrismaField \<Rightarrow> ParsedField" where
  "parsedColumn f = \<lparr> xf_name = pf_name f, xf_type = pf_type f,
            xf_list = (if truthy (pf_list f) then Some True else None),
            xf_optional = (if truthy (pf_optional f) \<and> \<not> truthy (pf_list f) then Some True
                           else None) \<rparr>"

definition parsedTable :: "PrismaModel \<Rightarrow> ParsedModel" where
  "parsedTable m = \<lparr> xm_name = pm_name m, xm_fields = map parsedColumn (pm_fields m) \<rparr>"

definition lineFields :: "string \<Rightarrow> ParsedField list" where
  "lineFields l = (if trim l = [] then [] else parseLine (trim l))"

definition modelLines :: "PrismaModel \<Rightarrow> string list" where
  "modelLines model =
     (let maxNameWidth = maxWidth (map (\<lambda>f. length (pf_name f)) (pm_fields model)) + 2;
          maxTypeWidth = maxWidth (map (\<lambda>f. length (formatFieldType f)) (pm_fields model)) + 2;
          hasIndexes = nonEmptyList (pm_indexes model);
          hasUnique = nonEmptyList (pm_unique model)
      in concat (map (\<lambda>f. writeFieldLines f maxNameWidth maxTypeWidth) (pm_fields model))
         @ (if hasIndexes
            then [] # map (\<lambda>index. ''  @@index(['' @ join '', '' index @ ''])'')
                         (the (pm_indexes model))
            else [])
         @ (if hasUnique
            then (if \<not> hasIndexes then [[]] else [])
                 @ map (\<lambda>u. ''  @@unique(['' @ join '', '' u @ ''])'') (the (pm_unique model))
            else [])
         @ (if nonEmpty (pm_map model)
            then (if \<not> hasIndexes \<and> \<not> hasUnique then [[]] else [])
                 @ [''  @@map('' @ quoted (the (pm_map model)) @ '')'']
            else []))"

text \<open>The schema of the run of the self-referential relation.\<close>

definition selfRelatedSchema :: PrismaSchema where
  "selfRelatedSchema = assembleSchema selfRelatedConfig noExternalModels
     (snd (projr (compileModels selfRelatedConfig noExternalModels)))"

section \<open>Properties\<close>

subsection \<open>Auxiliary facts\<close>

lemma mapFields_Inr_iff:
  "(\<exists>cols. mapFields fs cfg = Inr cols) \<longleftrightarrow> (\<forall>f\<in>set fs. \<exists>c. mapFieldToPrisma f cfg = Inr c)"
  by (induction fs) (auto split: sum.splits)

lemma mapFields_concat:
  "mapFields fs cfg = Inr cols \<Longrightarrow> f \<in> set fs \<Longrightarrow>
     \<exists>c. mapFieldToPrisma f cfg = Inr c \<and> set c \<subseteq> set cols"
  by (induction fs arbitrary: cols) (fastforce split: sum.splits)+

lemma mapFields_column_origin:
  "mapFields fs cfg = Inr cols \<Longrightarrow> c \<in> set cols \<Longrightarrow>
     \<exists>f\<in>set fs. \<exists>cs. mapFieldToPrisma f cfg = Inr cs \<and> c \<in> set cs"
  by (induction fs arbitrary: cols) (auto split: sum.splits)

lemma mapFieldToPrisma_single:
  "mapFieldToPrisma f cfg = Inr cols \<Longrightarrow> \<exists>c. cols = [c]"
  by (auto simp: mapFieldToPrisma_def mapRelationField_def mapComponentField_def mapMediaField_def
        Let_def split: option.splits FieldConfig.splits if_splits)

lemma separateComponentFields_filter:
  "separateComponentFields fs =
     (filter (\<lambda>f. fd_type f \<noteq> ''component'' \<and> fd_type f \<noteq> ''relation''
                  \<and> fd_translatable f \<noteq> Some False) fs,
      filter (\<lambda>f. \<not> (fd_type f \<noteq> ''component'' \<and> fd_type f \<noteq> ''relation''
                     \<and> fd_translatable f \<noteq> Some False)) fs)"
  by (induction fs) auto

lemma separateFields_filter:
  "separateFields fs =
     (filter (\<lambda>f. fd_type f \<noteq> ''component'' \<and> fd_type f \<noteq> ''relation''
                  \<and> fd_translatable f \<noteq> Some False) fs,
      filter (\<lambda>f. fd_type f \<noteq> ''component''
                  \<and> (fd_type f = ''relation'' \<or> fd_translatable f = Some False)) fs,
      filter (\<lambda>f. fd_type f = ''component'') fs)"
  by (induction fs) auto

lemma id_suffix_not_order: "x @ ''_id'' \<noteq> ''order''"
proof
  assume "x @ ''_id'' = ''order''"
  then have "last (x @ ''_id'') = last ''order''" by simp
  then show False by simp
qed

lemma sum_result: "\<not> isl r \<Longrightarrow> r = Inr (projr r)"
  by (cases r) auto

subsection \<open>The field translator\<close>




subsection \<open>The serializer's type token\<close>

text \<open>
  Claim C8. The type token of a column whose list flag is set is the base type followed
  by \<^verbatim>\<open>[]\<close> and does not end with \<^verbatim>\<open>?\<close>, whatever its optional flag; the token is the base
  type followed by \<^verbatim>\<open>?\<close> exactly when the column is optional and not a list.
\<close>

theorem formatFieldType_list_wins:
  "(truthy (pf_list f) \<longrightarrow>
      formatFieldType f = pf_type f @ ''[]'' \<and> \<not> endsWith (formatFieldType f) ''?'')
   \<and> (formatFieldType f = pf_type f @ ''?'' \<longleftrightarrow> truthy (pf_optional f) \<and> \<not> truthy (pf_list f))"
  by (auto simp: formatFieldType_def endsWith_def)

theorem formatFieldType_list_wins_witness:
  "truthy (pf_list ((column ''tags'' ''Tag'') \<lparr> pf_optional := Some True, pf_list := Some True \<rparr>))
   \<and> formatFieldType ((column ''tags'' ''Tag'') \<lparr> pf_optional := Some True, pf_list := Some True \<rparr>)
       = ''Tag[]''"
  using formatFieldType_list_wins
          [of "(column ''tags'' ''Tag'') \<lparr> pf_optional := Some True, pf_list := Some True \<rparr>"]
  by (simp add: column_def)

subsection \<open>Component tables\<close>

text \<open>
  Claim C3, as amended. In every table that \<^verbatim>\<open>buildComponentTable\<close> returns, the second
  column is the parent foreign key. For a non-repeatable field it carries \<^verbatim>\<open>@unique\<close>, and
  the builder adds no \<^verbatim>\<open>order\<close> column of its own: a column named \<^verbatim>\<open>order\<close> is either
  translated from one of the component's own fields or is the relation back to a parent
  whose snake-cased name is \<^verbatim>\<open>order\<close>. For a repeatable field the foreign key carries no
  attribute and the third column is the nullable integer \<^verbatim>\<open>order\<close>.
\<close>

theorem component_table_fk_and_order:
  assumes "buildComponentTable parentModel fieldKey component rep config context = Inr t"
  shows "pf_name (pm_fields t ! 1) = toSnakeCase parentModel @ ''_id''
     \<and> (\<not> rep \<longrightarrow>
           pf_attributes (pm_fields t ! 1) = Some [''@unique'']
           \<and> (\<forall>c\<in>set (pm_fields t). pf_name c = ''order'' \<longrightarrow>
                 (\<exists>f\<in>set (ce_fields component). \<exists>cols.
                      mapFieldToPrisma f config = Inr cols \<and> c \<in> set cols)
                 \<or> (toSnakeCase parentModel = ''order'' \<and> pf_type c = parentModel)))
     \<and> (rep \<longrightarrow>
           pf_attributes (pm_fields t ! 1) = Some []
           \<and> pf_name (pm_fields t ! 2) = ''order''
           \<and> pf_type (pm_fields t ! 2) = ''Int''
           \<and> pf_optional (pm_fields t ! 2) = Some True)"
proof -
  obtain tr nt where sep: "separateComponentFields (ce_fields component) = (tr, nt)"
    by (cases "separateComponentFields (ce_fields component)")
  let ?sel = "if i18nEnabled config then nt else nt @ tr"
  from assms sep obtain cols where cols: "mapFields ?sel config = Inr cols"
    by (auto simp: buildComponentTable_def Let_def split: sum.splits)
  have sub: "set ?sel \<subseteq> set (ce_fields component)"
    using sep by (auto simp: separateComponentFields_filter)
  have origin: "\<exists>f\<in>set (ce_fields component). \<exists>cs. mapFieldToPrisma f config = Inr cs \<and> c \<in> set cs"
    if "c \<in> set cols" for c
    using mapFields_column_origin [OF cols that] sub by blast
  have fields: "pm_fields t =
      [idColumn,
       (column (toSnakeCase parentModel @ ''_id'') ''String'')
         \<lparr> pf_attributes := Some (if rep then [] else [''@unique'']) \<rparr>]
      @ (if rep then [orderColumn] else [])
      @ (if abTestingOn context
         then [(column ''variant_id'' ''String'') \<lparr> pf_optional := Some True \<rparr>,
               (column ''enabled'' ''Boolean'')
                 \<lparr> pf_optional := Some True, pf_default := Some (JsBoolean True) \<rparr>]
         else [])
      @ cols
      @ [createdAtColumn, updatedAtColumn,
         (column (toSnakeCase parentModel) parentModel)
           \<lparr> pf_relation := Some (relationTo [toSnakeCase parentModel @ ''_id''] [''id''] ''Cascade'') \<rparr>]
      @ (if i18nEnabled config \<and> tr \<noteq> []
         then [(column ''translations''
                  (buildComponentTableName parentModel fieldKey config @ ''Translation''))
                 \<lparr> pf_list := Some True \<rparr>]
         else [])"
    using assms sep cols by (auto simp: buildComponentTable_def Let_def split: if_splits)
  have fk: "pf_name (pm_fields t ! 1) = toSnakeCase parentModel @ ''_id''"
    by (simp add: fields column_def)
  have nonrep: "pf_attributes (pm_fields t ! 1) = Some [''@unique'']
           \<and> (\<forall>c\<in>set (pm_fields t). pf_name c = ''order'' \<longrightarrow>
                 (\<exists>f\<in>set (ce_fields component). \<exists>cols.
                      mapFieldToPrisma f config = Inr cols \<and> c \<in> set cols)
                 \<or> (toSnakeCase parentModel = ''order'' \<and> pf_type c = parentModel))" if "\<not> rep"
  proof
    show "pf_attributes (pm_fields t ! 1) = Some [''@unique'']"
      using that by (simp add: fields column_def)
    show "\<forall>c\<in>set (pm_fields t). pf_name c = ''order'' \<longrightarrow>
                 (\<exists>f\<in>set (ce_fields component). \<exists>cols.
                      mapFieldToPrisma f config = Inr cols \<and> c \<in> set cols)
                 \<or> (toSnakeCase parentModel = ''order'' \<and> pf_type c = parentModel)"
    proof (intro ballI impI)
      fix c assume c: "c \<in> set (pm_fields t)" and n: "pf_name c = ''order''"
      from c that have "c \<in> set cols
          \<or> (pf_name c = toSnakeCase parentModel \<and> pf_type c = parentModel)
          \<or> pf_name c \<in> {''id'', toSnakeCase parentModel @ ''_id'', ''variant_id'', ''enabled'',
                ''created_at'', ''updated_at'', ''translations''}"
        by (auto simp: fields column_def idColumn_def createdAtColumn_def updatedAtColumn_def
              split: if_splits)
      with n id_suffix_not_order [of "toSnakeCase parentModel"]
      have "c \<in> set cols \<or> (toSnakeCase parentModel = ''order'' \<and> pf_type c = parentModel)"
        by auto
      then show "(\<exists>f\<in>set (ce_fields component). \<exists>cols.
                      mapFieldToPrisma f config = Inr cols \<and> c \<in> set cols)
                 \<or> (toSnakeCase parentModel = ''order'' \<and> pf_type c = parentModel)"
        using origin by blast
    qed
  qed
  have rep: "pf_attributes (pm_fields t ! 1) = Some []
           \<and> pf_name (pm_fields t ! 2) = ''order''
           \<and> pf_type (pm_fields t ! 2) = ''Int''
           \<and> pf_optional (pm_fields t ! 2) = Some True" if "rep"
    using that by (simp add: fields column_def orderColumn_def)
  from fk nonrep rep show ?thesis by blast
qed

theorem component_table_fk_and_order_witness:
  "\<exists>t u. buildComponentTable ''Post'' ''blocks'' blockComponent True baseConfig None = Inr t
     \<and> pf_attributes (pm_fields t ! 1) = Some []
     \<and> pf_name (pm_fields t ! 2) = ''order''
     \<and> buildComponentTable ''Post'' ''seo'' blockComponent False baseConfig None = Inr u
     \<and> pf_attributes (pm_fields u ! 1) = Some [''@unique'']"
proof -
  have "\<not> isl (buildComponentTable ''Post'' ''blocks'' blockComponent True baseConfig None)"
    by code_simp
  then obtain t where
    t: "buildComponentTable ''Post'' ''blocks'' blockComponent True baseConfig None = Inr t"
    using sum_result by blast
  have "\<not> isl (buildComponentTable ''Post'' ''seo'' blockComponent False baseConfig None)"
    by code_simp
  then obtain u where
    u: "buildComponentTable ''Post'' ''seo'' blockComponent False baseConfig None = Inr u"
    using sum_result by blast
  from component_table_fk_and_order [OF t] component_table_fk_and_order [OF u] t u
  show ?thesis by simp
qed

text \<open>
  Claim C3 as stated fails: the table of a non-repeatable component whose own integer
  field is keyed \<^verbatim>\<open>order\<close> has a nullable integer column of that name.
\<close>

theorem nonrepeatable_component_with_order_column:
  "\<not> isl (buildComponentTable ''Post'' ''ranking'' rankedComponent False baseConfig None)
   \<and> map (\<lambda>c. (pf_name c, pf_type c, pf_optional c))
         (pm_fields (projr (buildComponentTable ''Post'' ''ranking'' rankedComponent False
                              baseConfig None)))
     = [(''id'', ''String'', None), (''post_id'', ''String'', None),
        (''order'', ''Int'', Some True), (''created_at'', ''DateTime'', None),
        (''updated_at'', ''DateTime'', None), (''post'', ''Post'', None)]"
  by code_simp

text \<open>
  Claim C10. A table that \<^verbatim>\<open>buildComponentTable\<close> returns has the single-column index on
  the parent foreign key, as its only index, when the field is repeatable, and has no
  list of indexes when it is not.
\<close>

theorem component_index_iff_repeatable:
  assumes "buildComponentTable parentModel fieldKey component rep config context = Inr t"
  shows "pf_name (pm_fields t ! 1) = toSnakeCase parentModel @ ''_id''
     \<and> (rep \<longrightarrow> pm_indexes t = Some [[toSnakeCase parentModel @ ''_id'']])
     \<and> (\<not> rep \<longrightarrow> pm_indexes t = None)"
  using assms
  by (auto simp: buildComponentTable_def Let_def column_def split: prod.splits sum.splits if_splits)

theorem component_index_iff_repeatable_witness:
  "\<exists>t u. buildComponentTable ''Post'' ''blocks'' blockComponent True baseConfig None = Inr t
     \<and> pm_indexes t = Some [[''post_id'']]
     \<and> buildComponentTable ''Post'' ''seo'' blockComponent False baseConfig None = Inr u
     \<and> pm_indexes u = None"
proof -
  have "\<not> isl (buildComponentTable ''Post'' ''blocks'' blockComponent True baseConfig None)"
    by code_simp
  then obtain t where
    t: "buildComponentTable ''Post'' ''blocks'' blockComponent True baseConfig None = Inr t"
    using sum_result by blast
  have "\<not> isl (buildComponentTable ''Post'' ''seo'' blockComponent False baseConfig None)"
    by code_simp
  then obtain u where
    u: "buildComponentTable ''Post'' ''seo'' blockComponent False baseConfig None = Inr u"
    using sum_result by blast
  have s: "toSnakeCase ''Post'' = ''post''" by code_simp
  from component_index_iff_repeatable [OF t] component_index_iff_repeatable [OF u] t u s
  show ?thesis by simp
qed



subsection \<open>The model compiler\<close>

text \<open>
  Claim C1, as amended. \<^verbatim>\<open>buildModel\<close> returns exactly when the field translator accepts
  every non-component field of the model. Whenever it returns, the first table is the
  base table, named after the model; a second table, named \<^verbatim>\<open><Model>Translation\<close>, follows
  if and only if i18n is enabled and some field that is neither a relation nor a
  component has a translatable flag other than false; in every other case the base
  table is the only one. With i18n disabled, every non-component field, whatever its
  translatable flag, is translated to one column, which is a column of the base table.
\<close>

theorem buildModel_tables:
  "((\<exists>ts. buildModel m cfg = Inr ts)
      \<longleftrightarrow> (\<forall>f\<in>set (mc_fields m). fd_type f \<noteq> ''component'' \<longrightarrow>
             (\<exists>cols. mapFieldToPrisma f cfg = Inr cols)))
   \<and> (\<forall>ts. buildModel m cfg = Inr ts \<longrightarrow>
        (\<exists>base. pm_name base = buildModelName (mc_slug m) cfg
           \<and> (if i18nEnabled cfg
                  \<and> (\<exists>f\<in>set (mc_fields m). fd_type f \<noteq> ''relation'' \<and> fd_type f \<noteq> ''component''
                         \<and> fd_translatable f \<noteq> Some False)
               then \<exists>tr. ts = [base, tr]
                      \<and> pm_name tr = buildModelName (mc_slug m) cfg @ ''Translation''
               else ts = [base])
           \<and> (\<not> i18nEnabled cfg \<longrightarrow>
                (\<forall>f\<in>set (mc_fields m). fd_type f \<noteq> ''component'' \<longrightarrow>
                   (\<exists>c. mapFieldToPrisma f cfg = Inr [c] \<and> c \<in> set (pm_fields base))))))"
proof -
  let ?T = "filter (\<lambda>f. fd_type f \<noteq> ''component'' \<and> fd_type f \<noteq> ''relation''
                       \<and> fd_translatable f \<noteq> Some False) (mc_fields m)"
  let ?N = "filter (\<lambda>f. fd_type f \<noteq> ''component''
                       \<and> (fd_type f = ''relation'' \<or> fd_translatable f = Some False)) (mc_fields m)"
  let ?C = "filter (\<lambda>f. fd_type f = ''component'') (mc_fields m)"
  let ?ok = "\<forall>f\<in>set (mc_fields m). fd_type f \<noteq> ''component'' \<longrightarrow>
             (\<exists>cols. mapFieldToPrisma f cfg = Inr cols)"
  have sep: "separateFields (mc_fields m) = (?T, ?N, ?C)"
    by (rule separateFields_filter)
  have okT: "(\<exists>cols. mapFields ?T cfg = Inr cols) \<longleftrightarrow> (\<forall>f\<in>set ?T. \<exists>c. mapFieldToPrisma f cfg = Inr c)"
    by (rule mapFields_Inr_iff)
  have okN: "(\<exists>cols. mapFields ?N cfg = Inr cols) \<longleftrightarrow> (\<forall>f\<in>set ?N. \<exists>c. mapFieldToPrisma f cfg = Inr c)"
    by (rule mapFields_Inr_iff)
  have okNT: "(\<exists>cols. mapFields (?N @ ?T) cfg = Inr cols)
      \<longleftrightarrow> (\<forall>f\<in>set (?N @ ?T). \<exists>c. mapFieldToPrisma f cfg = Inr c)"
    by (rule mapFields_Inr_iff)
  have split_ok: "?ok \<longleftrightarrow> (\<forall>f\<in>set ?N. \<exists>c. mapFieldToPrisma f cfg = Inr c)
                        \<and> (\<forall>f\<in>set ?T. \<exists>c. mapFieldToPrisma f cfg = Inr c)"
    by auto
  have Tne: "?T \<noteq> [] \<longleftrightarrow> (\<exists>f\<in>set (mc_fields m). fd_type f \<noteq> ''relation'' \<and> fd_type f \<noteq> ''component''
                         \<and> fd_translatable f \<noteq> Some False)"
    by (auto simp: filter_empty_conv)
  have returns: "(\<exists>ts. buildModel m cfg = Inr ts) \<longleftrightarrow> ?ok"
  proof (cases "i18nEnabled cfg")
    case True
    show ?thesis
    proof (cases "?T = []")
      case True
      with \<open>i18nEnabled cfg\<close> okN show ?thesis
        unfolding split_ok
        by (auto simp: buildModel_def sep Let_def split: sum.splits)
    next
      case False
      with \<open>i18nEnabled cfg\<close> okN okT show ?thesis
        unfolding split_ok
        by (auto simp: buildModel_def sep Let_def buildTranslationModel_def split: sum.splits)
    qed
  next
    case False
    with okNT show ?thesis
      unfolding split_ok
      by (auto simp: buildModel_def sep Let_def split: sum.splits)
  qed
  have shape: "\<exists>base. pm_name base = buildModelName (mc_slug m) cfg
           \<and> (if i18nEnabled cfg
                  \<and> (\<exists>f\<in>set (mc_fields m). fd_type f \<noteq> ''relation'' \<and> fd_type f \<noteq> ''component''
                         \<and> fd_translatable f \<noteq> Some False)
               then \<exists>tr. ts = [base, tr]
                      \<and> pm_name tr = buildModelName (mc_slug m) cfg @ ''Translation''
               else ts = [base])
           \<and> (\<not> i18nEnabled cfg \<longrightarrow>
                (\<forall>f\<in>set (mc_fields m). fd_type f \<noteq> ''component'' \<longrightarrow>
                   (\<exists>c. mapFieldToPrisma f cfg = Inr [c] \<and> c \<in> set (pm_fields base))))"
    if ts: "buildModel m cfg = Inr ts" for ts
  proof (cases "i18nEnabled cfg")
    case True
    then show ?thesis
      using ts unfolding Tne [symmetric]
      by (auto simp: buildModel_def sep Let_def buildTranslationModel_def
            split: sum.splits if_splits)
  next
    case False
    from ts False obtain mapped where mapped: "mapFields (?N @ ?T) cfg = Inr mapped"
      and tsdef: "ts = [\<lparr> pm_name = buildModelName (mc_slug m) cfg,
                         pm_fields = [idColumn] @ mapped @ [createdAtColumn, updatedAtColumn]
                           @ componentReferences (buildModelName (mc_slug m) cfg) cfg ?C,
                         pm_indexes = Some (buildIndexes (mc_fields m) (mc_settings m)),
                         pm_unique = None, pm_map = None \<rparr>]"
      by (auto simp: buildModel_def sep Let_def split: sum.splits)
    have "\<exists>c. mapFieldToPrisma f cfg = Inr [c] \<and> c \<in> set mapped"
      if f: "f \<in> set (mc_fields m)" "fd_type f \<noteq> ''component''" for f
    proof -
      from f have "f \<in> set (?N @ ?T)" by auto
      from mapFields_concat [OF mapped this] obtain cols
        where c: "mapFieldToPrisma f cfg = Inr cols" "set cols \<subseteq> set mapped" by blast
      from mapFieldToPrisma_single [OF c(1)] obtain c' where "cols = [c']" by blast
      with c show ?thesis by auto
    qed
    with False show ?thesis by (auto simp: tsdef)
  qed
  from returns shape show ?thesis by blast
qed

theorem buildModel_tables_witness:
  "(\<exists>base tr. buildModel postModel i18nConfig = Inr [base, tr]
         \<and> pm_name base = ''Post'' \<and> pm_name tr = ''PostTranslation'')
   \<and> (\<exists>base. buildModel postModel baseConfig = Inr [base]
         \<and> map pf_name (pm_fields base) = [''id'', ''title'', ''body'', ''created_at'', ''updated_at''])"
proof -
  have ok: "\<forall>f\<in>set (mc_fields postModel). fd_type f \<noteq> ''component'' \<longrightarrow>
       (\<exists>cols. mapFieldToPrisma f i18nConfig = Inr cols)"
    by (simp add: postModel_def fieldOf_def mapFieldToPrisma_def)
  have cond: "i18nEnabled i18nConfig
      \<and> (\<exists>f\<in>set (mc_fields postModel). fd_type f \<noteq> ''relation'' \<and> fd_type f \<noteq> ''component''
             \<and> fd_translatable f \<noteq> Some False)"
    by (simp add: postModel_def fieldOf_def i18nConfig_def baseConfig_def)
  have name: "buildModelName (mc_slug postModel) i18nConfig = ''Post''"
    by code_simp
  from buildModel_tables [of postModel i18nConfig] ok
  obtain ts where ts: "buildModel postModel i18nConfig = Inr ts" by blast
  with buildModel_tables [of postModel i18nConfig] cond name
  have first: "\<exists>base tr. buildModel postModel i18nConfig = Inr [base, tr]
         \<and> pm_name base = ''Post'' \<and> pm_name tr = ''PostTranslation''"
    by auto
  have off: "\<not> i18nEnabled baseConfig"
    by (simp add: baseConfig_def)
  have "\<not> isl (buildModel postModel baseConfig)" by code_simp
  then obtain us where us: "buildModel postModel baseConfig = Inr us"
    using sum_result by blast
  with buildModel_tables [of postModel baseConfig] off
  obtain base where base: "us = [base]" by auto
  have "map pf_name (pm_fields (hd (projr (buildModel postModel baseConfig))))
      = [''id'', ''title'', ''body'', ''created_at'', ''updated_at'']"
    by code_simp
  with us base have second: "\<exists>base. buildModel postModel baseConfig = Inr [base]
         \<and> map pf_name (pm_fields base) = [''id'', ''title'', ''body'', ''created_at'', ''updated_at'']"
    by simp
  from first second show ?thesis by blast
qed

text \<open>
  Claim C1 as stated fails: a model whose relation field names no configuration is a
  definition the schema accepts, and for it \<^verbatim>\<open>buildModel\<close> returns no table at all.
\<close>

theorem buildModel_throws_on_bare_relation:
  "ModelConfigSchema (Some rawPostWithAuthor) = []
   \<and> buildModel postWithAuthor baseConfig = Inl (Error ''Invalid relation field'')"
  by code_simp

subsection \<open>Junction tables\<close>

lemma keepFirstFrom_append:
  "keepFirstFrom seen (xs @ ys) =
     keepFirstFrom seen xs @ keepFirstFrom (seen @ map pm_name (keepFirstFrom seen xs)) ys"
  by (induction xs arbitrary: seen) auto

lemma keepFirstFrom_names:
  "set (map pm_name (keepFirstFrom seen cs)) = set (map pm_name cs) - set seen"
  by (induction cs arbitrary: seen) auto

lemma keepFirstFrom_distinct:
  "distinct (map pm_name (keepFirstFrom seen cs))"
proof (induction cs arbitrary: seen)
  case Nil
  show ?case by simp
next
  case (Cons t ts)
  have "pm_name t \<notin> set (map pm_name (keepFirstFrom (seen @ [pm_name t]) ts))"
    unfolding keepFirstFrom_names by simp
  with Cons show ?case by simp
qed

lemma keepFirstFrom_first:
  "e \<in> set (keepFirstFrom seen cs) \<Longrightarrow> find (\<lambda>c. pm_name c = pm_name e) cs = Some e"
proof (induction cs arbitrary: seen)
  case Nil
  then show ?case by simp
next
  case (Cons t ts)
  show ?case
  proof (cases "pm_name t \<in> set seen")
    case True
    with Cons.prems have mem: "e \<in> set (keepFirstFrom seen ts)" by simp
    then have "pm_name e \<in> set (map pm_name (keepFirstFrom seen ts))" by force
    then have "pm_name e \<notin> set seen" unfolding keepFirstFrom_names by simp
    with True have "pm_name t \<noteq> pm_name e" by auto
    with Cons.IH [OF mem] show ?thesis by simp
  next
    case False
    with Cons.prems have "e = t \<or> e \<in> set (keepFirstFrom (seen @ [pm_name t]) ts)" by auto
    then show ?thesis
    proof
      assume "e = t" then show ?thesis by simp
    next
      assume mem: "e \<in> set (keepFirstFrom (seen @ [pm_name t]) ts)"
      then have "pm_name e \<in> set (map pm_name (keepFirstFrom (seen @ [pm_name t]) ts))" by force
      then have "pm_name e \<noteq> pm_name t" unfolding keepFirstFrom_names by auto
      with Cons.IH [OF mem] show ?thesis by simp
    qed
  qed
qed

lemma distinct_names_once:
  "distinct (map pm_name xs) \<Longrightarrow> n \<in> set (map pm_name xs) \<Longrightarrow>
     length (filter (\<lambda>e. pm_name e = n) xs) = 1"
proof (induction xs)
  case Nil
  then show ?case by simp
next
  case (Cons x xs)
  show ?case
  proof (cases "pm_name x = n")
    case True
    with Cons.prems have "n \<notin> pm_name ` set xs" by auto
    then have "filter (\<lambda>e. pm_name e = n) xs = []"
      by (auto simp: filter_empty_conv)
    with True show ?thesis by simp
  next
    case False
    with Cons show ?thesis by auto
  qed
qed

lemma junctionStep_refl: "junctionStep st st []"
  by (simp add: junctionStep_def)

lemma junctionStep_trans:
  "junctionStep st st' cs \<Longrightarrow> junctionStep st' st'' ds \<Longrightarrow> junctionStep st st'' (cs @ ds)"
  by (simp add: junctionStep_def keepFirstFrom_append)

lemma emitJunction_step:
  "emitJunction ownerName sbc field st = Inr st' \<Longrightarrow>
     junctionStep st st' (junctionCandidatesOfField ownerName sbc field)"
  by (auto simp: emitJunction_def junctionCandidatesOfField_def junctionStep_def junctionsOf_def
        split: if_splits sum.splits)

lemma junctionStep_eq:
  "junctionsOf (gs_prismaModels st1) = junctionsOf (gs_prismaModels st)
     \<Longrightarrow> gs_junctionTables st1 = gs_junctionTables st
     \<Longrightarrow> junctionStep st1 st' cs \<Longrightarrow> junctionStep st st' cs"
  by (simp add: junctionStep_def)

lemma processField_step:
  assumes "processField ownerName modelSlug components sbc field st = Inr st'"
  shows "junctionStep st st' (junctionCandidatesOfField ownerName sbc field)"
proof (cases "fd_type field = ''component''")
  case False
  with assms have "emitJunction ownerName sbc field st = Inr st'"
    by (simp add: processField_def)
  then show ?thesis by (rule emitJunction_step)
next
  case True
  then have none: "junctionCandidatesOfField ownerName sbc field = []"
    by (simp add: junctionCandidatesOfField_def needsJunctionTable_def)
  have noemit: "emitJunction ownerName sbc field s = Inr s" for s
    using True by (simp add: emitJunction_def needsJunctionTable_def)
  from assms True have "junctionsOf (gs_prismaModels st') = junctionsOf (gs_prismaModels st)
      \<and> gs_junctionTables st' = gs_junctionTables st"
    by (auto simp: processField_def noemit junctionsOf_def Let_def
          split: option.splits FieldConfig.splits sum.splits if_splits)
  then show ?thesis by (simp add: none junctionStep_def)
qed

lemma processFields_step:
  "processFields ownerName modelSlug components sbc fs st = Inr st' \<Longrightarrow>
     junctionStep st st' (concat (map (junctionCandidatesOfField ownerName sbc) fs))"
proof (induction fs arbitrary: st)
  case Nil
  then show ?case by (simp add: junctionStep_refl)
next
  case (Cons f fs)
  from Cons.prems obtain st1 where
    s1: "processField ownerName modelSlug components sbc f st = Inr st1" and
    s2: "processFields ownerName modelSlug components sbc fs st1 = Inr st'"
    by (auto split: sum.splits)
  from junctionStep_trans [OF processField_step [OF s1] Cons.IH [OF s2]]
  show ?case by simp
qed

lemma buildModel_first_name:
  "buildModel m cfg = Inr (first # others) \<Longrightarrow> pm_name first = buildModelName (mc_slug m) cfg"
  by (auto simp: buildModel_def Let_def split: prod.splits sum.splits if_splits)

lemma processModel_step:
  assumes "processModel components sbc model st = Inr st'"
  shows "junctionStep st st'
           (concat (map (junctionCandidatesOfField (buildModelName (mc_slug model) sbc) sbc)
                        (mc_fields model)))"
proof -
  let ?m = "model \<lparr> mc_fields := filter (\<lambda>field. \<not> fd_derived field) (mc_fields model) \<rparr>"
  let ?st0 = "st \<lparr> gs_warnings := gs_warnings st @ derivedWarnings model \<rparr>"
  from assms obtain first others where
    gen: "buildModel ?m sbc = Inr (first # others)" and
    run: "processFields (pm_name first) (mc_slug model) components sbc (mc_fields model)
            (?st0 \<lparr> gs_prismaModels :=
               gs_prismaModels ?st0 @ map (\<lambda>t. (FromBuildModel, t)) (first # others) \<rparr>) = Inr st'"
    by (auto simp: processModel_def Let_def split: sum.splits list.splits)
  have name: "pm_name first = buildModelName (mc_slug model) sbc"
    using buildModel_first_name [OF gen] by simp
  have same: "junctionsOf (map (\<lambda>t. (FromBuildModel, t)) ts) = []" for ts
    by (induction ts) (auto simp: junctionsOf_def)
  from processFields_step [OF run] show ?thesis
    unfolding name
    by (rule junctionStep_eq [rotated 2]) (simp_all add: junctionsOf_def same [unfolded junctionsOf_def])
qed

lemma processModels_step:
  "processModels components sbc ms st = Inr st' \<Longrightarrow>
     junctionStep st st' (junctionCandidates sbc ms)"
proof (induction ms arbitrary: st)
  case Nil
  then show ?case by (simp add: junctionStep_refl junctionCandidates_def)
next
  case (Cons m ms)
  from Cons.prems obtain st1 where
    s1: "processModel components sbc m st = Inr st1" and
    s2: "processModels components sbc ms st1 = Inr st'"
    by (auto split: sum.splits)
  from junctionStep_trans [OF processModel_step [OF s1] Cons.IH [OF s2]]
  show ?case by (simp add: junctionCandidates_def)
qed

lemma manyToManyNamed_iff:
  "manyToManyNamed sbc n (owner, f) \<longleftrightarrow>
     fd_type f = ''relation''
     \<and> (\<exists>target casc. fd_config f = Some (RelationConfig ''manyToMany'' target casc)
            \<and> junctionNameOf sbc owner target = n)"
  by (auto simp: manyToManyNamed_def split: option.splits FieldConfig.splits)

lemma candidate_of_relation:
  assumes "fd_type f = ''relation''"
    and "fd_config f = Some (RelationConfig ''manyToMany'' target casc)"
  shows "\<exists>t. junctionCandidatesOfField owner sbc f = [t]
     \<and> pm_name t = junctionNameOf sbc owner target
     \<and> pm_unique t = Some [[toSnakeCase owner @ ''_id'', toSnakeCase (toPascalCase target) @ ''_id'']]
     \<and> pf_name (pm_fields t ! 1) = toSnakeCase owner @ ''_id''
     \<and> pf_name (pm_fields t ! 2) = toSnakeCase (toPascalCase target) @ ''_id''"
  using assms
  by (simp add: junctionCandidatesOfField_def needsJunctionTable_def buildJunctionTable_def
        buildJunctionTableName_def junctionNameOf_def Let_def column_def)

lemma candidate_of_other:
  assumes "\<not> (fd_type f = ''relation''
              \<and> (\<exists>target casc. fd_config f = Some (RelationConfig ''manyToMany'' target casc)))"
  shows "junctionCandidatesOfField owner sbc f = []"
  using assms
  by (auto simp: junctionCandidatesOfField_def needsJunctionTable_def
        split: option.splits FieldConfig.splits)

lemma candidate_named:
  "(\<exists>t. junctionCandidatesOfField owner sbc f = [t] \<and> pm_name t = n)
     \<longleftrightarrow> manyToManyNamed sbc n (owner, f)"
proof (cases "fd_type f = ''relation''
              \<and> (\<exists>target casc. fd_config f = Some (RelationConfig ''manyToMany'' target casc))")
  case True
  then obtain target casc where r: "fd_type f = ''relation''"
    and c: "fd_config f = Some (RelationConfig ''manyToMany'' target casc)" by blast
  from candidate_of_relation [OF r c, of owner sbc] r c show ?thesis
    by (auto simp: manyToManyNamed_iff)
next
  case False
  from candidate_of_other [OF False] False show ?thesis
    by (auto simp: manyToManyNamed_iff)
qed

lemma candidate_at_most_one:
  "junctionCandidatesOfField owner sbc f = [] \<or> (\<exists>t. junctionCandidatesOfField owner sbc f = [t])"
  by (auto simp: junctionCandidatesOfField_def split: sum.splits)

lemma junctionCandidates_fields:
  "junctionCandidates sbc ms
     = concat (map (\<lambda>(owner, f). junctionCandidatesOfField owner sbc f) (fieldsInOrder sbc ms))"
proof (induction ms)
  case Nil
  show ?case by (simp add: junctionCandidates_def fieldsInOrder_def)
next
  case (Cons m ms)
  have "concat (map (\<lambda>(owner, f). junctionCandidatesOfField owner sbc f)
                  (map (\<lambda>field. (buildModelName (mc_slug m) sbc, field)) fs))
      = concat (map (junctionCandidatesOfField (buildModelName (mc_slug m) sbc) sbc) fs)" for fs
    by (induction fs) simp_all
  with Cons show ?case
    by (simp add: junctionCandidates_def fieldsInOrder_def)
qed

lemma find_first_candidate:
  assumes "\<And>x. g x = [] \<or> (\<exists>t. g x = [t])"
    and "find P (concat (map g xs)) = Some e"
  shows "\<exists>x. find (\<lambda>x. \<exists>t. g x = [t] \<and> P t) xs = Some x \<and> g x = [e]"
  using assms(2)
proof (induction xs)
  case Nil
  then show ?case by simp
next
  case (Cons x xs)
  from assms(1) [of x] show ?case
  proof
    assume "g x = []"
    with Cons show ?thesis by simp
  next
    assume "\<exists>t. g x = [t]"
    then obtain t where t: "g x = [t]" by blast
    show ?thesis
    proof (cases "P t")
      case True
      with t Cons.prems show ?thesis by simp
    next
      case False
      with t Cons show ?thesis by simp
    qed
  qed
qed

lemma single_of_name:
  assumes "distinct (map pm_name xs)" and "n \<in> set (map pm_name xs)"
  shows "\<exists>e. filter (\<lambda>e. pm_name e = n) xs = [e]"
proof -
  from distinct_names_once [OF assms]
  have "length (filter (\<lambda>e. pm_name e = n) xs) = Suc 0" by simp
  then show ?thesis by (auto simp: length_Suc_conv)
qed




subsection \<open>The validator\<close>


lemma runChecks_extends:
  "\<exists>rest. runChecks chs v ab issues = issues @ rest"
proof (induction chs arbitrary: ab issues)
  case Nil
  show ?case by simp
next
  case (Cons ch chs)
  show ?case
  proof (cases "case ch_when ch of Some w \<Rightarrow> \<not> w v | None \<Rightarrow> ab")
    case True
    with Cons [of ab issues] show ?thesis by simp
  next
    case False
    from Cons [of "ab \<or> aborted (ch_run ch v)" "issues @ ch_run ch v"]
    obtain rest where "runChecks chs v (ab \<or> aborted (ch_run ch v)) (issues @ ch_run ch v)
        = (issues @ ch_run ch v) @ rest" by blast
    with False show ?thesis by (simp add: Let_def)
  qed
qed

lemma withChecks_keeps:
  "iss \<in> set (parse v) \<Longrightarrow> iss \<in> set (withChecks parse chs v)"
  using runChecks_extends [of chs v "aborted (parse v)" "parse v"]
  by (auto simp: withChecks_def Let_def)

lemma withChecks_refine:
  "withChecks parse [refine predicate message path] v =
     (if aborted (parse v) \<or> predicate v then parse v
      else parse v @ [\<lparr> i_path = path, i_code = custom, i_message = Some message,
                        i_continue = True \<rparr>])"
  by (simp add: withChecks_def refine_def Let_def)

lemma z_object_member:
  assumes "(key, schema) \<in> set shape"
    and "iss \<in> set (schema (getProp key (JObj entries)))"
  shows "iss \<lparr> i_path := Key key # i_path iss \<rparr> \<in> set (z_object shape (Some (JObj entries)))"
  using assms by (force simp: z_object_def prefixIssues_def)

lemma z_array_member:
  assumes "i < length items" and "iss \<in> set (element (Some (items ! i)))"
  shows "iss \<lparr> i_path := Index i # i_path iss \<rparr> \<in> set (z_array element (Some (JArr items)))"
proof -
  from assms(1) have "(i, items ! i) \<in> set (enumerate 0 items)"
    by (simp add: in_set_enumerate_eq)
  with assms(2) show ?thesis
    by (force simp: z_array_def prefixIssues_def)
qed

lemma getProp_object: "getProp key v = Some x \<Longrightarrow> \<exists>entries. v = JObj entries"
  by (cases v) auto

lemma field_key_issue_base:
  assumes fields: "getProp ''fields'' raw = Some (JArr fs)"
    and i: "i < length fs"
    and key: "getProp ''key'' (fs ! i) = Some kv"
    and iss: "iss \<in> set (FieldKeySchema (Some kv))"
    and shape: "(''fields'', withChecks (z_array FieldDefinitionSchema) chs) \<in> set shape"
  shows "iss \<lparr> i_path := Key ''fields'' # Index i # Key ''key'' # i_path iss \<rparr>
           \<in> set (z_object shape (Some raw))"
proof -
  from fields obtain entries where raw: "raw = JObj entries"
    using getProp_object by blast
  from key obtain fentries where f: "fs ! i = JObj fentries"
    using getProp_object by blast
  have "iss \<lparr> i_path := Key ''key'' # i_path iss \<rparr> \<in> set (FieldDefinitionSchema (Some (fs ! i)))"
    unfolding f FieldDefinitionSchema_def
    by (rule z_object_member [where schema = FieldKeySchema])
       (use key iss f in simp_all)
  from z_array_member [where element = FieldDefinitionSchema and items = fs and i = i, OF i this]
  have "iss \<lparr> i_path := Index i # Key ''key'' # i_path iss \<rparr>
      \<in> set (z_array FieldDefinitionSchema (Some (JArr fs)))"
    by simp
  then have "iss \<lparr> i_path := Index i # Key ''key'' # i_path iss \<rparr>
      \<in> set (withChecks (z_array FieldDefinitionSchema) chs (getProp ''fields'' (JObj entries)))"
    using fields raw by (simp add: withChecks_keeps)
  from z_object_member [OF shape this] show ?thesis
    by (simp add: raw)
qed

lemma reserved_key_issue:
  assumes "k \<in> set RESERVED_SYSTEM"
  shows "\<lparr> i_path = [], i_code = custom, i_message = Some MSG_RESERVED_FIELD_KEY,
           i_continue = True \<rparr> \<in> set (FieldKeySchema (Some (JStr k)))"
  using assms
  by (auto simp: FieldKeySchema_def withChecks_def Let_def z_string_def aborted_def
        minLength_def hasLength_def lengthOf_def regex_def refine_def notSystemKey_def
        RESERVED_SYSTEM_def SLUG_def lowerChars_def digitChars_def)

lemma pattern_issue:
  assumes "\<not> SLUG k"
  shows "checkIssue invalid_format \<in> set (FieldKeySchema (Some (JStr k)))"
  using assms
  by (auto simp: FieldKeySchema_def withChecks_def Let_def z_string_def aborted_def
        minLength_def hasLength_def lengthOf_def regex_def refine_def checkIssue_def)

text \<open>
  Claim C6. A raw definition whose list of fields holds a field keyed \<^verbatim>\<open>id\<close>,
  \<^verbatim>\<open>created_at\<close> or \<^verbatim>\<open>updated_at\<close> is refused by the model schema, with the issue of the
  reserved key at the path of that key, and reading a row with this definition fails;
  a raw definition that holds a field keyed \<^verbatim>\<open>variant_id\<close> or \<^verbatim>\<open>enabled\<close> is refused by
  the component schema.
\<close>

theorem reserved_keys_rejected:
  assumes fields: "getProp ''fields'' raw = Some (JArr fs)"
    and i: "i < length fs"
    and key: "getProp ''key'' (fs ! i) = Some (JStr k)"
  shows "(k \<in> set [''id'', ''created_at'', ''updated_at''] \<longrightarrow>
            \<lparr> i_path = [Key ''fields'', Index i, Key ''key''], i_code = custom,
              i_message = Some ''Field key is reserved by the system'', i_continue = True \<rparr>
              \<in> set (ModelConfigSchema (Some raw))
            \<and> ModelConfigSchema (Some raw) \<noteq> []
            \<and> isl (validateRow libraryMessage
                      \<lparr> row_id = rid, row_slug = rslug, row_definition = raw \<rparr>))
     \<and> (k \<in> set [''variant_id'', ''enabled''] \<longrightarrow> ComponentEntitySchema (Some raw) \<noteq> [])"
proof (intro conjI impI)
  assume k: "k \<in> set [''id'', ''created_at'', ''updated_at'']"
  then have "k \<in> set RESERVED_SYSTEM" by (simp add: RESERVED_SYSTEM_def)
  from field_key_issue_base [OF fields i key reserved_key_issue [OF this],
      of "[minLength 1]"
         "[(''slug'', withChecks z_string [minLength 1, regex SLUG]),
           (''name'', withChecks z_string [minLength 1]),
           (''fields'', withChecks (z_array FieldDefinitionSchema) [minLength 1]),
           (''settings'', z_optional (z_object
              [(''enableI18n'', z_optional z_boolean),
               (''sortField'', z_optional z_string)]))]"]
  have "\<lparr> i_path = [Key ''fields'', Index i, Key ''key''], i_code = custom,
           i_message = Some MSG_RESERVED_FIELD_KEY, i_continue = True \<rparr>
          \<in> set (ModelConfigSchemaBase (Some raw))"
    by (simp add: ModelConfigSchemaBase_def)
  then show mem: "\<lparr> i_path = [Key ''fields'', Index i, Key ''key''], i_code = custom,
              i_message = Some ''Field key is reserved by the system'', i_continue = True \<rparr>
              \<in> set (ModelConfigSchema (Some raw))"
    unfolding ModelConfigSchema_def
    by (simp add: withChecks_keeps MSG_RESERVED_FIELD_KEY_def)
  then show ne: "ModelConfigSchema (Some raw) \<noteq> []" by auto
  then show "isl (validateRow libraryMessage
                      \<lparr> row_id = rid, row_slug = rslug, row_definition = raw \<rparr>)"
    by (simp add: validateRow_def Let_def)
next
  assume k: "k \<in> set [''variant_id'', ''enabled'']"
  let ?base = "z_object
        [(''slug'', withChecks z_string [minLength 1, regex SLUG]),
         (''name'', withChecks z_string [minLength 1]),
         (''fields'', withChecks (z_array FieldDefinitionSchema) [minLength 1])]"
  have pred: "\<not> noReservedABFields (Some raw)"
  proof -
    from i key have "Some (JStr k) \<in> set (map (getProp ''key'') fs)"
      by (metis length_map nth_map nth_mem)
    then have "Some (JStr k) \<in> set (fieldKeys (Some raw))"
      by (simp add: fieldKeys_def fields)
    moreover from k have "k \<in> set RESERVED_COMPONENT_AB_TESTING"
      by (simp add: RESERVED_COMPONENT_AB_TESTING_def)
    ultimately have "list_ex (\<lambda>key. case key of
                          Some (JStr k) \<Rightarrow> k \<in> set RESERVED_COMPONENT_AB_TESTING
                        | _ \<Rightarrow> False) (fieldKeys (Some raw))"
      unfolding list_ex_iff by (intro bexI [of _ "Some (JStr k)"]) simp_all
    then show ?thesis by (simp add: noReservedABFields_def)
  qed
  show "ComponentEntitySchema (Some raw) \<noteq> []"
  proof (cases "aborted (?base (Some raw))")
    case True
    then have "?base (Some raw) \<noteq> []" by (auto simp: aborted_def)
    with True show ?thesis
      by (simp add: ComponentEntitySchema_def withChecks_refine)
  next
    case False
    with pred show ?thesis
      by (simp add: ComponentEntitySchema_def withChecks_refine)
  qed
qed

theorem reserved_keys_rejected_witness:
  "getProp ''fields'' rawModelWithId
     = Some (JArr [rawField ''title'' ''Title'' ''text'', rawField ''id'' ''Id'' ''text''])
   \<and> ModelConfigSchema (Some rawModelWithId) \<noteq> []
   \<and> getProp ''fields'' rawComponentWithVariant
     = Some (JArr [rawField ''variant_id'' ''Variant'' ''text''])
   \<and> ComponentEntitySchema (Some rawComponentWithVariant) \<noteq> []"
proof -
  have f1: "getProp ''fields'' rawModelWithId
     = Some (JArr [rawField ''title'' ''Title'' ''text'', rawField ''id'' ''Id'' ''text''])"
    by (simp add: rawModelWithId_def rawDefinition_def)
  have k1: "getProp ''key''
      ([rawField ''title'' ''Title'' ''text'', rawField ''id'' ''Id'' ''text''] ! 1)
     = Some (JStr ''id'')"
    by (simp add: rawField_def)
  have f2: "getProp ''fields'' rawComponentWithVariant
     = Some (JArr [rawField ''variant_id'' ''Variant'' ''text''])"
    by (simp add: rawComponentWithVariant_def rawDefinition_def)
  have k2: "getProp ''key'' ([rawField ''variant_id'' ''Variant'' ''text''] ! 0)
     = Some (JStr ''variant_id'')"
    by (simp add: rawField_def)
  from reserved_keys_rejected [OF f1 _ k1]
  have "ModelConfigSchema (Some rawModelWithId) \<noteq> []" by simp
  moreover from reserved_keys_rejected [OF f2 _ k2]
  have "ComponentEntitySchema (Some rawComponentWithVariant) \<noteq> []" by simp
  ultimately show ?thesis using f1 f2 by simp
qed




subsection \<open>Serializer and parser\<close>


lemma join_Cons: "join sep (x # xs) = x @ concat (map (\<lambda>y. sep @ y) xs)"
  by (induction xs arbitrary: x) auto

lemma splitOn_nonempty: "splitOn p s \<noteq> []"
  by (induction s) (auto split: list.splits)

lemma splitOn_no_sep: "list_all (\<lambda>c. \<not> p c) s \<Longrightarrow> splitOn p s = [s]"
  by (induction s) auto

lemma splitOn_line:
  "list_all (\<lambda>c. \<not> p c) l \<Longrightarrow> p n \<Longrightarrow> splitOn p (l @ n # s) = l # splitOn p s"
  by (induction l) (auto simp: splitOn_nonempty split: list.splits)

lemma splitOn_lines:
  "list_all (\<lambda>l. list_all (\<lambda>c. \<not> p c) l) ls \<Longrightarrow> p n \<Longrightarrow>
     splitOn p (concat (map (\<lambda>l. l @ [n]) ls) @ s) = ls @ splitOn p s"
  by (induction ls) (auto simp: splitOn_line)

lemma trimEnd_append:
  "a \<noteq> [] \<Longrightarrow> \<not> isSpace (last a) \<Longrightarrow> trimEnd (a @ b) = a @ trimEnd b"
proof -
  assume a: "a \<noteq> []" "\<not> isSpace (last a)"
  have "dropWhile isSpace (rev b @ rev a) = dropWhile isSpace (rev b) @ rev a"
  proof (cases "list_all isSpace (rev b)")
    case True
    then have "dropWhile isSpace (rev b @ rev a) = dropWhile isSpace (rev a)"
      by (intro dropWhile_append2) (auto simp: list_all_iff)
    moreover from a have "dropWhile isSpace (rev a) = rev a"
      by (cases "rev a") (auto simp: last_rev hd_rev dest: arg_cong [where f = hd])
    moreover from True have "dropWhile isSpace (rev b) = []"
      by (simp add: list_all_iff)
    ultimately show ?thesis by simp
  next
    case False
    then obtain x where "x \<in> set (rev b)" "\<not> isSpace x" by (auto simp: list_all_iff)
    then show ?thesis by (simp add: dropWhile_append1)
  qed
  then show ?thesis by (simp add: trimEnd_def)
qed

lemma trimEnd_nospace_end: "a \<noteq> [] \<Longrightarrow> \<not> isSpace (last a) \<Longrightarrow> trimEnd a = a"
  using trimEnd_append [of a "[]"] by (simp add: trimEnd_def)

lemma trimEnd_prefix: "\<exists>r. s = trimEnd s @ r \<and> list_all isSpace r"
proof -
  have "rev s = takeWhile isSpace (rev s) @ dropWhile isSpace (rev s)" by simp
  then have "s = rev (dropWhile isSpace (rev s)) @ rev (takeWhile isSpace (rev s))"
    by (metis rev_append rev_rev_ident)
  moreover have "list_all isSpace (rev (takeWhile isSpace (rev s)))"
    by (auto simp: list_all_iff dest: set_takeWhileD)
  ultimately show ?thesis unfolding trimEnd_def by blast
qed

lemma trimEnd_last: "trimEnd s \<noteq> [] \<Longrightarrow> \<not> isSpace (last (trimEnd s))"
proof -
  assume "trimEnd s \<noteq> []"
  then have ne: "dropWhile isSpace (rev s) \<noteq> []" by (simp add: trimEnd_def)
  then have "\<not> isSpace (hd (dropWhile isSpace (rev s)))" by (rule hd_dropWhile)
  with ne show ?thesis by (simp add: trimEnd_def last_rev)
qed

lemma trimEnd_idem: "trimEnd (trimEnd s) = trimEnd s"
proof (cases "trimEnd s = []")
  case True
  then show ?thesis by (simp add: trimEnd_def)
next
  case False
  then show ?thesis using trimEnd_last trimEnd_nospace_end by blast
qed

lemma trimStart_spaces:
  "list_all isSpace sp \<Longrightarrow> a \<noteq> [] \<Longrightarrow> \<not> isSpace (hd a) \<Longrightarrow> trimStart (sp @ a @ b) = a @ b"
  by (cases a) (auto simp: trimStart_def dropWhile_append2 list_all_iff)

lemma isSpace_blank [simp]: "isSpace CHR '' ''"
  by (simp add: isSpace_def)

lemma isSpace_newline [simp]: "isSpace CHR 0x0A"
  by (simp add: isSpace_def)

lemma isWord_not_space: "isWord c \<Longrightarrow> \<not> isSpace c"
  by (auto simp: isWord_def isSpace_def lowerChars_def upperChars_def digitChars_def)

lemma isWord_not_special:
  "isWord c \<Longrightarrow> c \<noteq> CHR ''?'' \<and> c \<noteq> CHR '']'' \<and> c \<noteq> CHR ''['' \<and> c \<noteq> CHR ''}''
     \<and> c \<noteq> CHR ''{'' \<and> c \<noteq> CHR 0x0A \<and> c \<noteq> CHR '' ''"
  by (auto simp: isWord_def lowerChars_def upperChars_def digitChars_def)

lemma splitSpaces_leading:
  "isSpace t \<Longrightarrow> \<exists>ws. splitSpaces (t # ts) = [] # ws"
  by (induction ts arbitrary: t) (auto split: list.splits)

lemma splitSpaces_first:
  "list_all (\<lambda>c. \<not> isSpace c) b \<Longrightarrow> tail = [] \<or> isSpace (hd tail) \<Longrightarrow>
     \<exists>ws. splitSpaces (b @ tail) = b # ws"
proof (induction b)
  case Nil
  then show ?case
    using splitSpaces_leading [of "hd tail" "tl tail"] by (cases tail) auto
next
  case (Cons c b)
  then obtain ws where "splitSpaces (b @ tail) = b # ws" by auto
  with Cons.prems show ?case by simp
qed

lemma splitSpaces_gap:
  "sp \<noteq> [] \<Longrightarrow> list_all isSpace sp \<Longrightarrow> r \<noteq> [] \<Longrightarrow> \<not> isSpace (hd r) \<Longrightarrow>
     splitSpaces (sp @ r) = [] # splitSpaces r"
proof (induction sp)
  case Nil
  then show ?case by simp
next
  case (Cons s sp)
  show ?case
  proof (cases sp)
    case Nil
    with Cons.prems show ?thesis by (cases r) auto
  next
    case (Cons s' sp')
    with Cons.prems Cons.IH show ?thesis by auto
  qed
qed

lemma splitSpaces_word_gap:
  "list_all (\<lambda>c. \<not> isSpace c) a \<Longrightarrow> sp \<noteq> [] \<Longrightarrow> list_all isSpace sp \<Longrightarrow> r \<noteq> [] \<Longrightarrow>
     \<not> isSpace (hd r) \<Longrightarrow> splitSpaces (a @ sp @ r) = a # splitSpaces r"
  by (induction a) (auto simp: splitSpaces_gap)

lemma splitSpaces_two:
  assumes "list_all (\<lambda>c. \<not> isSpace c) a" "sp \<noteq> []" "list_all isSpace sp"
    "b \<noteq> []" "list_all (\<lambda>c. \<not> isSpace c) b" "tail = [] \<or> isSpace (hd tail)"
  shows "\<exists>ws. splitSpaces (a @ sp @ b @ tail) = a # b # ws"
proof -
  from assms(4,5) have "b @ tail \<noteq> []" "\<not> isSpace (hd (b @ tail))"
    by (cases b; simp)+
  from splitSpaces_word_gap [OF assms(1-3) this]
  have "splitSpaces (a @ sp @ b @ tail) = a # splitSpaces (b @ tail)" .
  with splitSpaces_first [OF assms(5,6)] show ?thesis by auto
qed

lemma plainWord_last:
  "plainWord t \<Longrightarrow> last t \<noteq> CHR ''?'' \<and> last t \<noteq> CHR '']''"
proof -
  assume "plainWord t"
  then have "t \<noteq> []" "isWord (last t)"
    by (auto simp: plainWord_def list_all_iff)
  then show ?thesis using isWord_not_special by blast
qed

lemma endsWith_last: "endsWith s t \<Longrightarrow> t \<noteq> [] \<Longrightarrow> last s = last t"
proof -
  assume a: "endsWith s t" "t \<noteq> []"
  then have d: "drop (length s - length t) s = t" and l: "length t \<le> length s"
    by (simp_all add: endsWith_def)
  from a l have "length s - length t < length s" by (cases t) auto
  then have "last (drop (length s - length t) s) = last s" by (rule last_drop)
  with d show ?thesis by simp
qed

lemma token_list:
  "\<not> endsWith (t @ ''[]'') ''?'' \<and> endsWith (t @ ''[]'') ''[]''
     \<and> butlast (butlast (t @ ''[]'')) = t"
  by (auto simp: endsWith_def butlast_append dest: endsWith_last)

lemma token_optional:
  "plainWord t \<Longrightarrow> endsWith (t @ ''?'') ''?'' \<and> butlast (t @ ''?'') = t \<and> \<not> endsWith t ''[]''"
  using plainWord_last [of t] endsWith_last [of t "''[]''"]
  by (auto simp: endsWith_def butlast_append)

lemma token_plain:
  "plainWord t \<Longrightarrow> \<not> endsWith t ''?'' \<and> \<not> endsWith t ''[]''"
  using plainWord_last [of t] endsWith_last [of t "''[]''"] endsWith_last [of t "''?''"]
  by auto

lemma formatFieldType_token:
  assumes "plainWord (pf_type f)"
  shows "formatFieldType f \<noteq> [] \<and> list_all (\<lambda>c. \<not> isSpace c) (formatFieldType f)
     \<and> noBreak (formatFieldType f)"
proof -
  from assms have w: "list_all isWord (pf_type f)" and ne: "pf_type f \<noteq> []"
    by (simp_all add: plainWord_def)
  from w have "list_all (\<lambda>c. \<not> isSpace c) (pf_type f)"
    by (auto simp: list_all_iff isWord_not_space)
  moreover from w have "noBreak (pf_type f)"
    using isWord_not_special by (auto simp: list_all_iff noBreak_def)
  ultimately show ?thesis using ne
    by (auto simp: formatFieldType_def noBreak_def isSpace_def)
qed

lemma parse_token:
  assumes "plainWord (pf_type f)" "name \<noteq> []"
    and parts: "splitSpaces line = name # formatFieldType f # ws"
  shows "parseFieldLine line =
     Some \<lparr> xf_name = name, xf_type = pf_type f,
            xf_list = (if truthy (pf_list f) then Some True else None),
            xf_optional = (if truthy (pf_optional f) \<and> \<not> truthy (pf_list f) then Some True
                           else None) \<rparr>"
proof -
  from formatFieldType_token [OF assms(1)] have ne: "formatFieldType f \<noteq> []" by simp
  consider (l) "truthy (pf_list f)"
    | (o) "\<not> truthy (pf_list f)" "truthy (pf_optional f)"
    | (p) "\<not> truthy (pf_list f)" "\<not> truthy (pf_optional f)" by blast
  then show ?thesis
  proof cases
    case l
    then have t: "formatFieldType f = pf_type f @ ''[]''" by (simp add: formatFieldType_def)
    show ?thesis
      using l token_list [of "pf_type f"] assms(2)
      by (simp add: parseFieldLine_def parts t Let_def)
  next
    case o
    then have t: "formatFieldType f = pf_type f @ ''?''" by (simp add: formatFieldType_def)
    show ?thesis
      using o token_optional [OF assms(1)] assms(2)
      by (simp add: parseFieldLine_def parts t Let_def)
  next
    case p
    then have t: "formatFieldType f = pf_type f" by (simp add: formatFieldType_def)
    show ?thesis
      using p token_plain [OF assms(1)] assms(2) ne
      by (simp add: parseFieldLine_def parts t Let_def)
  qed
qed

lemma noBreak_append [simp]: "noBreak (a @ b) \<longleftrightarrow> noBreak a \<and> noBreak b"
  by (simp add: noBreak_def)

lemma noBreak_Cons [simp]: "noBreak (c # s) \<longleftrightarrow> c \<noteq> CHR ''}'' \<and> c \<noteq> CHR 0x0A \<and> noBreak s"
  by (simp add: noBreak_def)

lemma noBreak_Nil [simp]: "noBreak []"
  by (simp add: noBreak_def)

lemma noBreak_replicate [simp]: "noBreak (replicate n CHR '' '')"
  by (simp add: noBreak_def list_all_iff)

lemma noBreak_join: "list_all noBreak xs \<Longrightarrow> noBreak sep \<Longrightarrow> noBreak (join sep xs)"
  by (induction sep xs rule: join.induct) auto

lemma noBreak_prefix: "noBreak (a @ b) \<Longrightarrow> noBreak a"
  by simp

lemma noBreak_trimEnd: "noBreak s \<Longrightarrow> noBreak (trimEnd s)"
  using trimEnd_prefix [of s] by (metis noBreak_append)

lemma writeFieldAligned_shape:
  assumes "roundTripColumn f"
  shows "\<exists>R. noBreak R \<and> writeFieldAligned f w1 w2
     = trimEnd (''  '' @ padEnd (pf_name f) w1 @ ''  '' @ padEnd (formatFieldType f) w2 @ R)"
proof -
  let ?A = "case pf_attributes f of None \<Rightarrow> [] | Some attrs \<Rightarrow> if attrs = [] then [] else join '' '' attrs"
  let ?B = "case pf_relation f of None \<Rightarrow> [] | Some r \<Rightarrow> '' '' @ formatRelation r"
  let ?C = "if nonEmpty (pf_map f) then '' @map('' @ quoted (the (pf_map f)) @ '')'' else []"
  have eq: "writeFieldAligned f w1 w2
     = trimEnd (''  '' @ padEnd (pf_name f) w1 @ ''  '' @ padEnd (formatFieldType f) w2
                @ (?A @ ?B @ ?C))"
    by (simp add: writeFieldAligned_def Let_def split: option.splits)
  from assms have "noBreak ?A"
    by (auto simp: roundTripColumn_def intro: noBreak_join split: option.splits)
  moreover from assms have "noBreak ?B"
    by (auto simp: roundTripColumn_def split: option.splits)
  moreover from assms have "noBreak ?C"
    by (auto simp: roundTripColumn_def nonEmpty_def quoted_def split: option.splits)
  ultimately have "noBreak (?A @ ?B @ ?C)" by simp
  with eq show ?thesis by blast
qed

lemma columnNameOk_facts:
  assumes "columnNameOk n"
  shows "n \<noteq> []" and "list_all (\<lambda>c. \<not> isSpace c) n" and "noBreak n"
    and "hd n \<noteq> CHR ''/''" and "hd n \<noteq> CHR ''@''"
proof -
  from assms have ne: "n \<noteq> []"
    and all: "\<forall>c\<in>set n. \<not> isSpace c \<and> c \<noteq> CHR ''}''"
    and h: "hd n \<noteq> CHR ''/''" "hd n \<noteq> CHR ''@''"
    unfolding columnNameOk_def list_all_iff by blast+
  show "n \<noteq> []" by (rule ne)
  show "hd n \<noteq> CHR ''/''" by (rule h)
  show "hd n \<noteq> CHR ''@''" by (rule h)
  show "list_all (\<lambda>c. \<not> isSpace c) n"
    unfolding list_all_iff using all by blast
  show "noBreak n"
    unfolding noBreak_def list_all_iff
  proof
    fix c assume "c \<in> set n"
    with all have s: "\<not> isSpace c" and b: "c \<noteq> CHR ''}''" by blast+
    from s isSpace_newline have "c \<noteq> CHR 0x0A" by blast
    with b show "c \<noteq> CHR ''}'' \<and> c \<noteq> CHR 0x0A" by blast
  qed
qed

lemma field_line:
  assumes rt: "roundTripColumn f" and w: "length (formatFieldType f) < w2"
  shows "noBreak (writeFieldAligned f w1 w2)
     \<and> trim (writeFieldAligned f w1 w2) \<noteq> []
     \<and> parseLine (trim (writeFieldAligned f w1 w2)) = [parsedColumn f]"
proof -
  let ?n = "pf_name f" and ?t = "formatFieldType f"
  from rt have nameok: "columnNameOk ?n" and ty: "plainWord (pf_type f)"
    by (simp_all add: roundTripColumn_def)
  note n_ne = columnNameOk_facts(1) [OF nameok] and n_ns = columnNameOk_facts(2) [OF nameok]
    and n_nb = columnNameOk_facts(3) [OF nameok]
    and n_hd = columnNameOk_facts(4) [OF nameok] columnNameOk_facts(5) [OF nameok]
  from formatFieldType_token [OF ty]
  have t_ne: "?t \<noteq> []" and t_ns: "list_all (\<lambda>c. \<not> isSpace c) ?t" and t_nb: "noBreak ?t"
    by simp_all
  from writeFieldAligned_shape [OF rt, of w1 w2] obtain R where R: "noBreak R"
    and line: "writeFieldAligned f w1 w2
       = trimEnd (''  '' @ padEnd ?n w1 @ ''  '' @ padEnd ?t w2 @ R)"
    by blast
  let ?P1 = "replicate (w1 - length ?n) CHR '' '' @ ''  ''"
  let ?P2 = "replicate (w2 - length ?t) CHR '' ''"
  let ?tail = "trimEnd (?P2 @ R)"
  have whole: "''  '' @ padEnd ?n w1 @ ''  '' @ padEnd ?t w2 @ R
      = (''  '' @ ?n @ ?P1 @ ?t) @ (?P2 @ R)"
    by (simp add: padEnd_def)
  have last_t: "\<not> isSpace (last ?t)"
    using t_ne t_ns by (auto simp: list_all_iff)
  have l1: "writeFieldAligned f w1 w2 = ''  '' @ ?n @ ?P1 @ ?t @ ?tail"
    unfolding line whole
    using trimEnd_append [of "''  '' @ ?n @ ?P1 @ ?t" "?P2 @ R"] t_ne last_t by simp
  have nb: "noBreak (writeFieldAligned f w1 w2)"
    unfolding l1 using n_nb t_nb R by (simp add: noBreak_trimEnd)
  have hd_n: "\<not> isSpace (hd ?n)"
    using n_ne n_ns by (cases ?n) auto
  have "trimStart (writeFieldAligned f w1 w2) = ?n @ ?P1 @ ?t @ ?tail"
    unfolding l1 using trimStart_spaces [of "''  ''" ?n "?P1 @ ?t @ ?tail"] n_ne hd_n
    by simp
  then have "trim (writeFieldAligned f w1 w2) = trimEnd ((?n @ ?P1 @ ?t) @ ?tail)"
    by (simp add: trim_def)
  also have "\<dots> = (?n @ ?P1 @ ?t) @ trimEnd ?tail"
    using trimEnd_append [of "?n @ ?P1 @ ?t" ?tail] t_ne last_t by simp
  finally have tr: "trim (writeFieldAligned f w1 w2) = ?n @ ?P1 @ ?t @ ?tail"
    by (simp add: trimEnd_idem)
  have tail: "?tail = [] \<or> isSpace (hd ?tail)"
  proof (cases "?tail = []")
    case True
    then show ?thesis by simp
  next
    case False
    from trimEnd_prefix [of "?P2 @ R"] obtain r where r: "?P2 @ R = ?tail @ r" by blast
    from w have "?P2 \<noteq> []" by simp
    then have "hd (?P2 @ R) = CHR '' ''" by (cases "w2 - length ?t") auto
    with r False have "hd ?tail = CHR '' ''" by (metis hd_append2)
    then show ?thesis by simp
  qed
  have P1: "?P1 \<noteq> []" "list_all isSpace ?P1"
    by (simp_all add: list_all_iff)
  from splitSpaces_two [OF n_ns P1 t_ne t_ns tail] obtain ws where
    parts: "splitSpaces (trim (writeFieldAligned f w1 w2)) = ?n # ?t # ws"
    unfolding tr by auto
  from parse_token [OF ty n_ne parts]
  have pf: "parseFieldLine (trim (writeFieldAligned f w1 w2)) = Some (parsedColumn f)"
    by (simp add: parsedColumn_def)
  obtain c cs where ncs: "?n = c # cs" using n_ne by (cases ?n) auto
  with n_hd have c: "c \<noteq> CHR ''/''" "c \<noteq> CHR ''@''" by simp_all
  have starts: "\<not> startsWith (trim (writeFieldAligned f w1 w2)) ''//''"
    "\<not> startsWith (trim (writeFieldAligned f w1 w2)) ''@@index''"
    "\<not> startsWith (trim (writeFieldAligned f w1 w2)) ''@@unique''"
    "\<not> startsWith (trim (writeFieldAligned f w1 w2)) ''@@map''"
    unfolding tr ncs using c by (simp_all add: startsWith_def)
  have ne: "trim (writeFieldAligned f w1 w2) \<noteq> []"
    unfolding tr using n_ne by simp
  from nb ne starts pf show ?thesis
    by (simp add: parseLine_def)
qed

lemma writeModel_lines:
  "writeModel m = join [CHR 0x0A] ((''model '' @ pm_name m @ '' {'') # modelLines m @ [''}''])"
  by (simp add: writeModel_def modelLines_def Let_def)

lemma bodyLines_fields:
  "concat (map parseLine (filter (\<lambda>l. l \<noteq> []) (map trim ls))) = concat (map lineFields ls)"
  by (induction ls) (simp_all add: lineFields_def)

lemma lineFields_empty: "lineFields [] = []"
  by (simp add: lineFields_def trim_def trimStart_def trimEnd_def)

lemma trim_marker:
  assumes "p \<noteq> []" "\<not> isSpace (hd p)" "\<not> isSpace (last p)"
  shows "trim (''  '' @ p @ r) = p @ trimEnd r"
proof -
  have "trimStart (''  '' @ p @ r) = p @ r"
    using trimStart_spaces [of "''  ''" p r] assms by simp
  then show ?thesis
    using trimEnd_append [of p r] assms by (simp add: trim_def)
qed

lemma lineFields_comment: "lineFields (''  '' @ ''//'' @ r) = []"
proof -
  have "trim (''  '' @ ''//'' @ r) = ''//'' @ trimEnd r"
    by (rule trim_marker) (simp_all add: isSpace_def)
  then show ?thesis
    by (simp add: lineFields_def parseLine_def startsWith_def)
qed

lemma lineFields_index: "lineFields (''  '' @ ''@@index'' @ r) = []"
proof -
  have "trim (''  '' @ ''@@index'' @ r) = ''@@index'' @ trimEnd r"
    by (rule trim_marker) (simp_all add: isSpace_def)
  then show ?thesis
    by (simp add: lineFields_def parseLine_def startsWith_def)
qed

lemma lineFields_unique: "lineFields (''  '' @ ''@@unique'' @ r) = []"
proof -
  have "trim (''  '' @ ''@@unique'' @ r) = ''@@unique'' @ trimEnd r"
    by (rule trim_marker) (simp_all add: isSpace_def)
  then show ?thesis
    by (simp add: lineFields_def parseLine_def startsWith_def)
qed

lemma lineFields_map: "lineFields (''  '' @ ''@@map'' @ r) = []"
proof -
  have "trim (''  '' @ ''@@map'' @ r) = ''@@map'' @ trimEnd r"
    by (rule trim_marker) (simp_all add: isSpace_def)
  then show ?thesis
    by (simp add: lineFields_def parseLine_def startsWith_def)
qed

lemma fold_max_ge: "a \<le> fold max xs (a::nat)"
proof (induction xs arbitrary: a)
  case Nil
  show ?case by simp
next
  case (Cons x xs)
  have "a \<le> max x a" by simp
  also have "\<dots> \<le> fold max xs (max x a)" by (rule Cons.IH)
  finally show ?case by simp
qed

lemma fold_max_mem: "x \<in> set xs \<Longrightarrow> x \<le> fold max xs (a::nat)"
proof (induction xs arbitrary: a)
  case Nil
  then show ?case by simp
next
  case (Cons y ys)
  show ?case
  proof (cases "x = y")
    case True
    have "x \<le> max y a" using True by simp
    also have "\<dots> \<le> fold max ys (max y a)" by (rule fold_max_ge)
    finally show ?thesis by simp
  next
    case False
    with Cons.prems have "x \<in> set ys" by simp
    from Cons.IH [OF this] show ?thesis by simp
  qed
qed

lemma maxWidth_bound: "f \<in> set fs \<Longrightarrow> g f < maxWidth (map g fs) + 2"
proof -
  assume "f \<in> set fs"
  then have "g f \<in> set (map g fs)" by simp
  from fold_max_mem [OF this, of 0] show ?thesis by (simp add: maxWidth_def)
qed

lemma if_none_some: "(if P then None else Some (p @ x)) = Some c \<Longrightarrow> \<exists>r. c = p @ r"
  by (cases P) auto

lemma zodComment_shape:
  assumes "buildZodComment val = Some c"
  shows "\<exists>r. c = ''//'' @ r"
proof (cases val)
  case None
  with assms show ?thesis by (simp add: buildZodComment_def)
next
  case (Some v)
  from assms have "\<exists>r. c = ''/// @zod.'' @ r"
    unfolding Some buildZodComment_def Let_def option.case
    by (rule if_none_some)
  then obtain r where "c = ''/// @zod.'' @ r" by blast
  then have "c = ''//'' @ (''/ @zod.'' @ r)" by simp
  then show ?thesis by blast
qed

lemma fieldLines_fields:
  assumes rt: "roundTripColumn f" and w: "length (formatFieldType f) < w2"
  shows "concat (map lineFields (writeFieldLines f w1 w2)) = [parsedColumn f]
     \<and> list_all noBreak (writeFieldLines f w1 w2)"
proof -
  from field_line [OF rt w, of w1] have nb: "noBreak (writeFieldAligned f w1 w2)"
    and lf: "lineFields (writeFieldAligned f w1 w2) = [parsedColumn f]"
    by (simp_all add: lineFields_def)
  show ?thesis
  proof (cases "buildZodComment (pf_validation f)")
    case None
    with nb lf show ?thesis by (simp add: writeFieldLines_def)
  next
    case (Some c)
    from zodComment_shape [OF Some] obtain r where c: "c = ''//'' @ r" by blast
    from rt Some have cnb: "noBreak c" by (simp add: roundTripColumn_def)
    have "lineFields (''  '' @ c) = []"
      unfolding c by (rule lineFields_comment)
    with nb lf cnb Some show ?thesis by (simp add: writeFieldLines_def)
  qed
qed

lemma allFieldLines_fields:
  assumes "list_all roundTripColumn fs" "\<forall>f\<in>set fs. length (formatFieldType f) < w2"
  shows "concat (map lineFields (concat (map (\<lambda>f. writeFieldLines f w1 w2) fs)))
       = map parsedColumn fs
     \<and> list_all noBreak (concat (map (\<lambda>f. writeFieldLines f w1 w2) fs))"
  using assms
proof (induction fs)
  case Nil
  show ?case by simp
next
  case (Cons f fs)
  from Cons.prems have rt: "roundTripColumn f" and w: "length (formatFieldType f) < w2"
    and rest: "list_all roundTripColumn fs" "\<forall>f\<in>set fs. length (formatFieldType f) < w2"
    by simp_all
  from fieldLines_fields [OF rt w, of w1] Cons.IH [OF rest] show ?case by simp
qed

lemma attribute_lines:
  assumes m: "marker = ''@@index'' \<or> marker = ''@@unique''"
    and "list_all (list_all noBreak) xs"
  shows "concat (map lineFields (map (\<lambda>x. ''  '' @ marker @ ''(['' @ join '', '' x @ ''])'') xs)) = []
     \<and> list_all noBreak (map (\<lambda>x. ''  '' @ marker @ ''(['' @ join '', '' x @ ''])'') xs)"
  using assms(2)
proof (induction xs)
  case Nil
  show ?case by simp
next
  case (Cons x xs)
  from Cons.prems have x: "list_all noBreak x" and rest: "list_all (list_all noBreak) xs"
    by simp_all
  have j: "noBreak (join '', '' x)"
    by (rule noBreak_join [OF x]) simp
  have lf: "lineFields (''  '' @ marker @ ''(['' @ join '', '' x @ ''])'') = []"
    using m lineFields_index [of "''(['' @ join '', '' x @ ''])''"]
      lineFields_unique [of "''(['' @ join '', '' x @ ''])''"]
    by auto
  have nb: "noBreak (''  '' @ marker @ ''(['' @ join '', '' x @ ''])'')"
    using m j by auto
  from lf nb Cons.IH [OF rest] show ?case by simp
qed

lemma modelLines_fields:
  assumes rt: "roundTripTable m"
  shows "concat (map lineFields (modelLines m)) = map parsedColumn (pm_fields m)
     \<and> list_all noBreak (modelLines m)"
proof -
  let ?w1 = "maxWidth (map (\<lambda>f. length (pf_name f)) (pm_fields m)) + 2"
  let ?w2 = "maxWidth (map (\<lambda>f. length (formatFieldType f)) (pm_fields m)) + 2"
  let ?F = "concat (map (\<lambda>f. writeFieldLines f ?w1 ?w2) (pm_fields m))"
  let ?I = "if nonEmptyList (pm_indexes m)
            then [] # map (\<lambda>index. ''  @@index(['' @ join '', '' index @ ''])'')
                         (the (pm_indexes m))
            else []"
  let ?U = "if nonEmptyList (pm_unique m)
            then (if \<not> nonEmptyList (pm_indexes m) then [[]] else [])
                 @ map (\<lambda>u. ''  @@unique(['' @ join '', '' u @ ''])'') (the (pm_unique m))
            else []"
  let ?M = "if nonEmpty (pm_map m)
            then (if \<not> nonEmptyList (pm_indexes m) \<and> \<not> nonEmptyList (pm_unique m) then [[]] else [])
                 @ [''  @@map('' @ quoted (the (pm_map m)) @ '')'']
            else []"
  have lines: "modelLines m = ?F @ ?I @ ?U @ ?M"
    by (simp add: modelLines_def Let_def)
  from rt have cols: "list_all roundTripColumn (pm_fields m)"
    by (simp add: roundTripTable_def)
  have bound: "\<forall>f\<in>set (pm_fields m). length (formatFieldType f) < ?w2"
    using maxWidth_bound [where g = "\<lambda>f. length (formatFieldType f)" and fs = "pm_fields m"]
    by blast
  from allFieldLines_fields [OF cols bound, of ?w1]
  have F: "concat (map lineFields ?F) = map parsedColumn (pm_fields m)" "list_all noBreak ?F"
    by simp_all
  have I: "concat (map lineFields ?I) = [] \<and> list_all noBreak ?I"
  proof (cases "nonEmptyList (pm_indexes m)")
    case False
    then show ?thesis by simp
  next
    case True
    then obtain ixs where ixs: "pm_indexes m = Some ixs"
      by (cases "pm_indexes m") (simp_all add: nonEmptyList_def)
    with rt have "list_all (list_all noBreak) ixs" by (simp add: roundTripTable_def)
    from attribute_lines [where marker = "''@@index''", OF _ this]
    show ?thesis using True ixs by (simp add: lineFields_empty)
  qed
  have U: "concat (map lineFields ?U) = [] \<and> list_all noBreak ?U"
  proof (cases "nonEmptyList (pm_unique m)")
    case False
    then show ?thesis by simp
  next
    case True
    then obtain us where us: "pm_unique m = Some us"
      by (cases "pm_unique m") (simp_all add: nonEmptyList_def)
    with rt have "list_all (list_all noBreak) us" by (simp add: roundTripTable_def)
    from attribute_lines [where marker = "''@@unique''", OF _ this]
    show ?thesis using True us by (simp add: lineFields_empty)
  qed
  have M: "concat (map lineFields ?M) = [] \<and> list_all noBreak ?M"
  proof (cases "nonEmpty (pm_map m)")
    case False
    then show ?thesis by simp
  next
    case True
    then obtain n where n: "pm_map m = Some n"
      by (cases "pm_map m") (simp_all add: nonEmpty_def)
    with rt have nb: "noBreak n" by (simp add: roundTripTable_def)
    have lf: "lineFields (''  @@map('' @ quoted n @ '')'') = []"
      using lineFields_map [of "''('' @ quoted n @ '')''"] by simp
    have "noBreak (''  @@map('' @ quoted n @ '')'')"
      using nb by (simp add: quoted_def)
    with lf True n show ?thesis by (simp add: lineFields_empty)
  qed
  from F I U M show ?thesis unfolding lines by simp
qed

lemma concat_shift:
  "concat (map (\<lambda>y. n # y) ls) @ [n] = n # concat (map (\<lambda>l. l @ [n]) ls)"
  by (induction ls) auto

lemma noBreak_chars:
  "noBreak l \<Longrightarrow> list_all (\<lambda>c. \<not> c = CHR 0x0A) l \<and> list_all (\<lambda>c. c \<noteq> CHR ''}'') l"
  unfolding noBreak_def list_all_iff by blast

lemma list_all_lines:
  "list_all (\<lambda>l. list_all P l) ls \<Longrightarrow> P n \<Longrightarrow>
     list_all P (concat (map (\<lambda>l. l @ [n]) ls))"
  by (induction ls) simp_all

lemma writeModel_block:
  assumes rt: "roundTripTable m"
  shows "\<exists>B. writeModel m = ''model '' @ pm_name m @ '' {'' @ B @ ''}''
     \<and> B \<noteq> [] \<and> list_all (\<lambda>c. c \<noteq> CHR ''}'') B
     \<and> concat (map parseLine (bodyLines B)) = map parsedColumn (pm_fields m)"
proof -
  let ?L = "modelLines m"
  let ?B = "CHR 0x0A # concat (map (\<lambda>l. l @ [CHR 0x0A]) ?L)"
  from modelLines_fields [OF rt]
  have fields: "concat (map lineFields ?L) = map parsedColumn (pm_fields m)"
    and nb: "list_all noBreak ?L" by simp_all
  from nb have nonl: "list_all (\<lambda>l. list_all (\<lambda>c. \<not> c = CHR 0x0A) l) ?L"
    and nobrace: "list_all (\<lambda>l. list_all (\<lambda>c. c \<noteq> CHR ''}'') l) ?L"
    using noBreak_chars unfolding list_all_iff by blast+
  have "writeModel m = (''model '' @ pm_name m @ '' {'')
      @ concat (map (\<lambda>y. [CHR 0x0A] @ y) (?L @ [''}'']))"
    unfolding writeModel_lines by (rule join_Cons)
  also have "\<dots> = ''model '' @ pm_name m @ '' {''
      @ (concat (map (\<lambda>y. CHR 0x0A # y) ?L) @ [CHR 0x0A]) @ ''}''"
    by simp
  also have "\<dots> = ''model '' @ pm_name m @ '' {'' @ ?B @ ''}''"
    unfolding concat_shift ..
  finally have w: "writeModel m = ''model '' @ pm_name m @ '' {'' @ ?B @ ''}''" .
  have brace: "list_all (\<lambda>c. c \<noteq> CHR ''}'') ?B"
    using list_all_lines [OF nobrace, of "CHR 0x0A"] by simp
  have "splitOn (\<lambda>c. c = CHR 0x0A) ?B
      = [] # splitOn (\<lambda>c. c = CHR 0x0A) (concat (map (\<lambda>l. l @ [CHR 0x0A]) ?L) @ [])"
    using splitOn_line [of "\<lambda>c. c = CHR 0x0A" "[]" "CHR 0x0A"] by simp
  also have "\<dots> = [] # (?L @ splitOn (\<lambda>c. c = CHR 0x0A) [])"
    using splitOn_lines [of "\<lambda>c. c = CHR 0x0A" ?L "CHR 0x0A" "[]"] nonl by simp
  finally have split: "splitOn (\<lambda>c. c = CHR 0x0A) ?B = [] # ?L @ [[]]" by simp
  have "concat (map parseLine (bodyLines ?B)) = concat (map lineFields ([] # ?L @ [[]]))"
    unfolding bodyLines_def split by (rule bodyLines_fields)
  also have "\<dots> = map parsedColumn (pm_fields m)"
    using fields by (simp add: lineFields_empty)
  finally have parsed: "concat (map parseLine (bodyLines ?B)) = map parsedColumn (pm_fields m)" .
  from w brace parsed show ?thesis by blast
qed

lemma takeWhile_stop:
  "list_all P a \<Longrightarrow> \<not> P c \<Longrightarrow> takeWhile P (a @ c # r) = a"
  by (induction a) simp_all

lemma dropWhile_stop:
  "list_all P a \<Longrightarrow> \<not> P c \<Longrightarrow> dropWhile P (a @ c # r) = c # r"
  by (induction a) simp_all

lemma not_isWord_blank: "\<not> isWord CHR '' ''"
  using isWord_not_special by blast

lemma not_isSpace_brace: "\<not> isSpace CHR ''{''"
  by (simp add: isSpace_def)

lemma matchModelAt_block:
  assumes name: "plainWord name" and B: "B \<noteq> []" "list_all (\<lambda>c. c \<noteq> CHR ''}'') B"
  shows "matchModelAt (''model '' @ name @ '' {'' @ B @ ''}'' @ rest)
     = Some (name, B, length (''model '' @ name @ '' {'' @ B @ ''}''))"
proof -
  let ?s = "''model '' @ name @ '' {'' @ B @ ''}'' @ rest"
  from name obtain c cs where n: "name = c # cs" and c: "isWord c"
    by (cases name) (auto simp: plainWord_def)
  from name have w: "list_all isWord name" and ne: "name \<noteq> []"
    by (simp_all add: plainWord_def)
  have c_ns: "\<not> isSpace c" using c by (rule isWord_not_space)
  have st: "startsWith ?s ''model''" by (simp add: startsWith_def)
  have r1: "drop 5 ?s = CHR '' '' # name @ CHR '' '' # CHR ''{'' # B @ CHR ''}'' # rest"
    by simp
  have sp1: "takeWhile isSpace (CHR '' '' # name @ CHR '' '' # CHR ''{'' # B @ CHR ''}'' # rest)
      = '' ''"
    unfolding n using c_ns by simp
  have r2: "dropWhile isSpace (CHR '' '' # name @ CHR '' '' # CHR ''{'' # B @ CHR ''}'' # rest)
      = name @ CHR '' '' # CHR ''{'' # B @ CHR ''}'' # rest"
    unfolding n using c_ns by simp
  have nm: "takeWhile isWord (name @ CHR '' '' # CHR ''{'' # B @ CHR ''}'' # rest) = name"
    using takeWhile_stop [OF w not_isWord_blank] by simp
  have r3: "dropWhile isWord (name @ CHR '' '' # CHR ''{'' # B @ CHR ''}'' # rest)
      = CHR '' '' # CHR ''{'' # B @ CHR ''}'' # rest"
    using dropWhile_stop [OF w not_isWord_blank] by simp
  have sp2: "takeWhile isSpace (CHR '' '' # CHR ''{'' # B @ CHR ''}'' # rest) = '' ''"
    using not_isSpace_brace by simp
  have r4: "dropWhile isSpace (CHR '' '' # CHR ''{'' # B @ CHR ''}'' # rest)
      = CHR ''{'' # B @ CHR ''}'' # rest"
    using not_isSpace_brace by simp
  have body: "takeWhile (\<lambda>d. d \<noteq> CHR ''}'') (B @ CHR ''}'' # rest) = B"
    using takeWhile_stop [OF B(2), of "CHR ''}''" rest] by simp
  have r6: "dropWhile (\<lambda>d. d \<noteq> CHR ''}'') (B @ CHR ''}'' # rest) = CHR ''}'' # rest"
    using dropWhile_stop [OF B(2), of "CHR ''}''" rest] by simp
  show ?thesis
    unfolding matchModelAt_def Let_def
    using st ne B(1)
    by (simp only: r1 sp1 r2 nm r3 sp2 r4 body r6 if_False if_True not_True_eq_False
          simp_thms list.case list.distinct list.size length_append)
       simp
qed

lemma scan_skip: "scanModels (length p) (p @ s) = scanModels 0 s"
  by (induction p) simp_all

lemma scan_newline: "scanModels 0 (CHR 0x0A # s) = scanModels 0 s"
  by (simp add: matchModelAt_def startsWith_def)

lemma startsWith_junk:
  assumes "\<not> startsWith J ''model''"
  shows "\<not> startsWith (J @ CHR 0x0A # s) ''model''"
proof
  assume "startsWith (J @ CHR 0x0A # s) ''model''"
  then have h: "take (length ''model'') (J @ CHR 0x0A # s) = ''model''"
    unfolding startsWith_def .
  show False
  proof (cases "length ''model'' \<le> length J")
    case True
    then have "take (length ''model'') (J @ CHR 0x0A # s) = take (length ''model'') J"
      by (simp del: length_Cons list.size)
    with h assms show False unfolding startsWith_def by simp
  next
    case False
    then obtain k where k: "length ''model'' - length J = Suc k"
      by (cases "length ''model'' - length J") simp_all
    from False have "take (length ''model'') (J @ CHR 0x0A # s) = J @ CHR 0x0A # take k s"
      unfolding take_append k by simp
    then have "CHR 0x0A \<in> set (take (length ''model'') (J @ CHR 0x0A # s))" by simp
    with h have "CHR 0x0A \<in> set ''model''" by simp
    then show False by simp
  qed
qed

lemma includesText_Cons:
  "includesText (c # cs) pat \<longleftrightarrow> startsWith (c # cs) pat \<or> includesText cs pat"
  by (simp add: includesText_def split: option.splits)

lemma scan_junk:
  "\<not> includesText J ''model'' \<Longrightarrow> scanModels 0 (J @ CHR 0x0A # s) = scanModels 0 s"
proof (induction J)
  case Nil
  show ?case by (simp only: append_Nil scan_newline)
next
  case (Cons c J)
  from Cons.prems have ns: "\<not> startsWith (c # J) ''model''" and rest: "\<not> includesText J ''model''"
    by (simp_all add: includesText_Cons)
  from startsWith_junk [OF ns, of s] have "matchModelAt (c # J @ CHR 0x0A # s) = None"
    by (simp add: matchModelAt_def)
  with Cons.IH [OF rest] show ?case by simp
qed

lemma scan_model:
  assumes rt: "roundTripTable m"
  shows "scanModels 0 (writeModel m @ s) = parsedTable m # scanModels 0 s"
proof -
  from writeModel_block [OF rt] obtain B where
    w: "writeModel m = ''model '' @ pm_name m @ '' {'' @ B @ ''}''"
    and B: "B \<noteq> []" "list_all (\<lambda>c. c \<noteq> CHR ''}'') B"
    and p: "concat (map parseLine (bodyLines B)) = map parsedColumn (pm_fields m)"
    by blast
  from rt have name: "plainWord (pm_name m)" by (simp add: roundTripTable_def)
  let ?M' = "''odel '' @ pm_name m @ '' {'' @ B @ ''}''"
  have M: "writeModel m @ s = CHR ''m'' # ?M' @ s" by (simp add: w)
  from matchModelAt_block [OF name B, of s]
  have match: "matchModelAt (CHR ''m'' # ?M' @ s) = Some (pm_name m, B, Suc (length ?M'))"
    by simp
  have "scanModels 0 (CHR ''m'' # ?M' @ s)
      = parseModelBlock (pm_name m) B # scanModels (length ?M') (?M' @ s)"
    by (simp only: scanModels.simps match) simp
  also have "\<dots> = parsedTable m # scanModels 0 s"
    unfolding scan_skip by (simp add: parseModelBlock_def parsedTable_def p)
  finally show ?thesis unfolding M .
qed

lemma join_blocks:
  "join [CHR 0x0A, CHR 0x0A] (x # xs) @ [CHR 0x0A]
     = x @ CHR 0x0A # concat (map (\<lambda>y. CHR 0x0A # y @ [CHR 0x0A]) xs)"
  by (induction xs arbitrary: x) simp_all

lemma scan_generators:
  "list_all (\<lambda>g. \<not> includesText g ''model'') gs \<Longrightarrow>
     scanModels 0 (concat (map (\<lambda>y. CHR 0x0A # y @ [CHR 0x0A]) gs) @ s) = scanModels 0 s"
proof (induction gs)
  case Nil
  show ?case by simp
next
  case (Cons g gs)
  from Cons.prems have g: "\<not> includesText g ''model''"
    and rest: "list_all (\<lambda>g. \<not> includesText g ''model'') gs" by simp_all
  have "scanModels 0 (concat (map (\<lambda>y. CHR 0x0A # y @ [CHR 0x0A]) (g # gs)) @ s)
      = scanModels 0 (g @ CHR 0x0A # concat (map (\<lambda>y. CHR 0x0A # y @ [CHR 0x0A]) gs) @ s)"
    by (simp add: scan_newline del: scanModels.simps)
  also have "\<dots> = scanModels 0 (concat (map (\<lambda>y. CHR 0x0A # y @ [CHR 0x0A]) gs) @ s)"
    by (rule scan_junk [OF g])
  finally show ?case using Cons.IH [OF rest] by simp
qed

lemma scan_tables:
  "list_all roundTripTable ms \<Longrightarrow>
     scanModels 0 (concat (map (\<lambda>y. CHR 0x0A # y @ [CHR 0x0A]) (map writeModel ms)))
       = map parsedTable ms"
proof (induction ms)
  case Nil
  show ?case by simp
next
  case (Cons m ms)
  from Cons.prems have m: "roundTripTable m" and rest: "list_all roundTripTable ms" by simp_all
  let ?R = "concat (map (\<lambda>y. CHR 0x0A # y @ [CHR 0x0A]) (map writeModel ms))"
  have "scanModels 0 (concat (map (\<lambda>y. CHR 0x0A # y @ [CHR 0x0A]) (map writeModel (m # ms))))
      = scanModels 0 (writeModel m @ CHR 0x0A # ?R)"
    by (simp add: scan_newline del: scanModels.simps)
  also have "\<dots> = parsedTable m # scanModels 0 (CHR 0x0A # ?R)"
    by (rule scan_model [OF m])
  also have "\<dots> = parsedTable m # scanModels 0 ?R"
    by (simp only: scan_newline)
  finally show ?case using Cons.IH [OF rest] by simp
qed

lemma extracted_parsed: "extractedTable (parsedTable m) = recoveredTable m"
  by (simp add: extractedTable_def parsedTable_def recoveredTable_def extractedColumn_def
        parsedColumn_def recoveredColumn_def)




end
